theory Spec2Isabelle
  imports Main "HOL-Library.Multiset"
begin

section \<open>The turn handler of evennia/contrib/turnbattle/tb_items.py\<close>

text \<open>
  The module keeps its state in Evennia attributes: \<^verbatim>\<open>character.db.hp\<close>,
  \<^verbatim>\<open>character.db.combat_*\<close>, \<^verbatim>\<open>room.db.combat_turnhandler\<close> and the
  \<^verbatim>\<open>self.db.*\<close> attributes of the script \<^verbatim>\<open>TBItemsTurnHandler\<close>. Objects are
  shared by reference, so the model is an explicit store: characters, rooms and scripts
  are addressed by identifiers and every function takes the store and returns the new one.
\<close>

subsection \<open>Options (lines 64-65)\<close>

definition TURN_TIMEOUT :: int where
  "TURN_TIMEOUT = 30"

definition ACTIONS_PER_TURN :: int where
  "ACTIONS_PER_TURN = 1"

subsection \<open>Data\<close>

type_synonym obj_id = nat
type_synonym script_id = nat

text \<open>
  Modelled from the spec: the attribute handler behind \<^verbatim>\<open>.db\<close> is framework code
  outside the module. The spec gives every participant one health and the transient
  combat fields: \<^verbatim>\<open>db.hp\<close> and \<^verbatim>\<open>db.HP\<close> are the one attribute \<open>hp\<close> (Evennia
  folds attribute keys to lower case), and an attribute that is not set reads as
  \<^verbatim>\<open>None\<close>, which is \<open>None\<close> here.
\<close>

record character =
  hp :: "int option"
  combat_actionsleft :: "int option"
  combat_turnhandler :: "script_id option"
  combat_lastaction :: "string option"

record room =
  contents :: "obj_id list"
  room_combat_turnhandler :: "script_id option"

text \<open>
  The script. \<open>obj\<close> is the room the script is attached to, \<open>is_active\<close> is the
  framework's flag of a running script. \<open>turn\<close> is only ever set to 0 or incremented,
  so it is a natural number; \<open>timeout_warning_given\<close> is only tested for truth, so the
  unset attribute is \<open>False\<close>.
\<close>

record turnhandler =
  obj :: obj_id
  interval :: int
  is_active :: bool
  fighters :: "obj_id list"
  turn :: nat
  timer :: int
  timeout_warning_given :: bool

text \<open>The messages sent through \<^verbatim>\<open>msg_contents\<close> (to a room) and \<^verbatim>\<open>msg\<close> (to one
  character), one constructor for each format string of the turn handler.\<close>

datatype event =
    Turn_order obj_id "obj_id list"
  | Your_turn obj_id int
  | Timed_out obj_id obj_id
  | Timeout_warning obj_id
  | All_disengaged obj_id
  | Only_remains obj_id obj_id
  | Turn_change obj_id obj_id obj_id

record world =
  chars :: "obj_id \<Rightarrow> character"
  rooms :: "obj_id \<Rightarrow> room"
  scripts :: "script_id \<Rightarrow> turnhandler"
  msgs :: "event list"

text \<open>The exceptions Python raises in the modelled code. State changed before the
  exception stays changed, so a call returns the raised error or its value together with
  the store it leaves behind.\<close>

datatype error = AttributeError | TypeError | IndexError | UnboundLocalError

type_synonym 'a outcome = "(error + 'a) \<times> world"

datatype amount = All | Amt int

subsection \<open>Store access\<close>

definition upd_char :: "world \<Rightarrow> obj_id \<Rightarrow> (character \<Rightarrow> character) \<Rightarrow> world" where
  "upd_char w c f = w\<lparr>chars := (chars w)(c := f (chars w c))\<rparr>"

definition upd_script :: "world \<Rightarrow> script_id \<Rightarrow> (turnhandler \<Rightarrow> turnhandler) \<Rightarrow> world" where
  "upd_script w h f = w\<lparr>scripts := (scripts w)(h := f (scripts w h))\<rparr>"

definition upd_room :: "world \<Rightarrow> obj_id \<Rightarrow> (room \<Rightarrow> room) \<Rightarrow> world" where
  "upd_room w r f = w\<lparr>rooms := (rooms w)(r := f (rooms w r))\<rparr>"

definition send :: "world \<Rightarrow> event \<Rightarrow> world" where
  "send w e = w\<lparr>msgs := msgs w @ [e]\<rparr>"

text \<open>Python truth of an integer attribute: \<^verbatim>\<open>None\<close> and 0 are false.\<close>

definition truthy :: "int option \<Rightarrow> bool" where
  "truthy v = (case v of None \<Rightarrow> False | Some n \<Rightarrow> n \<noteq> 0)"

subsection \<open>Combat functions (lines 73-298)\<close>

text \<open>\<^verbatim>\<open>roll_init\<close> ignores the character and returns \<^verbatim>\<open>randint(1, 1000)\<close>. The
  random source is a parameter: \<open>rnd k\<close> is the result of the \<open>k\<close>-th call.\<close>

definition roll_init :: "(nat \<Rightarrow> int) \<Rightarrow> nat \<Rightarrow> obj_id \<Rightarrow> int" where
  "roll_init rnd k character = rnd k"

text \<open>\<^verbatim>\<open>combat_cleanup\<close> removes every attribute whose key starts with \<^verbatim>\<open>combat_\<close>:
  of the attributes modelled, the three combat fields.\<close>

definition cleanup_attrs :: "character \<Rightarrow> character" where
  "cleanup_attrs ch =
     ch\<lparr>combat_actionsleft := None, combat_turnhandler := None, combat_lastaction := None\<rparr>"

definition combat_cleanup :: "world \<Rightarrow> obj_id \<Rightarrow> world" where
  "combat_cleanup w c = upd_char w c cleanup_attrs"

definition is_in_combat :: "world \<Rightarrow> obj_id \<Rightarrow> bool" where
  "is_in_combat w c = (combat_turnhandler (chars w c) \<noteq> None)"

definition is_turn :: "world \<Rightarrow> obj_id \<Rightarrow> bool outcome" where
  "is_turn w c =
     (case combat_turnhandler (chars w c) of
        None \<Rightarrow> (Inl AttributeError, w)
      | Some h \<Rightarrow>
          (let s = scripts w h in
           if turn s < length (fighters s)
           then (Inr (c = fighters s ! turn s), w)
           else (Inl IndexError, w)))"

subsection \<open>The script (lines 388-554)\<close>

definition initialize_for_combat :: "world \<Rightarrow> script_id \<Rightarrow> obj_id \<Rightarrow> world" where
  "initialize_for_combat w h c =
     upd_char (combat_cleanup w c) c
       (\<lambda>ch. ch\<lparr>combat_actionsleft := Some 0, combat_turnhandler := Some h,
                combat_lastaction := Some ''null''\<rparr>)"

text \<open>\<^verbatim>\<open>start_turn\<close>: the format \<^verbatim>\<open>%i\<close> raises \<^verbatim>\<open>TypeError\<close> on \<^verbatim>\<open>None\<close>.\<close>

definition start_turn :: "world \<Rightarrow> obj_id \<Rightarrow> unit outcome" where
  "start_turn w c =
     (let w1 = upd_char w c (\<lambda>ch. ch\<lparr>combat_actionsleft := Some ACTIONS_PER_TURN\<rparr>)
      in case hp (chars w1 c) of
           None \<Rightarrow> (Inl TypeError, w1)
         | Some n \<Rightarrow> (Inr (), send w1 (Your_turn c n)))"

definition at_stop :: "world \<Rightarrow> script_id \<Rightarrow> world" where
  "at_stop w h =
     (let w1 = fold (\<lambda>fighter w'. combat_cleanup w' fighter) (fighters (scripts w h)) w
      in upd_room w1 (obj (scripts w1 h)) (\<lambda>r. r\<lparr>room_combat_turnhandler := None\<rparr>))"

text \<open>
  Modelled from the spec: \<^verbatim>\<open>DefaultScript.stop\<close> is framework code outside the module.
  The spec says the scheduler ``stops itself'' and that the transition to \<open>ENDED\<close> runs
  the cleanup: \<open>stop\<close> runs the hook \<open>at_stop\<close> and marks the script as not running.
\<close>

definition stop :: "world \<Rightarrow> script_id \<Rightarrow> world" where
  "stop w h = upd_script (at_stop w h) h (\<lambda>s. s\<lparr>is_active := False\<rparr>)"

text \<open>The three loops of \<^verbatim>\<open>next_turn\<close> over the roster.\<close>

definition disengage_check :: "world \<Rightarrow> obj_id list \<Rightarrow> bool" where
  "disengage_check w fs =
     fold (\<lambda>fighter b. if combat_lastaction (chars w fighter) \<noteq> Some ''disengage''
                        then False else b) fs True"

definition defeated_characters :: "world \<Rightarrow> obj_id list \<Rightarrow> int" where
  "defeated_characters w fs =
     fold (\<lambda>fighter n. if hp (chars w fighter) = Some 0 then n + 1 else n) fs 0"

definition last_standing :: "world \<Rightarrow> obj_id list \<Rightarrow> obj_id option" where
  "last_standing w fs =
     fold (\<lambda>fighter l. if hp (chars w fighter) \<noteq> Some 0 then Some fighter else l) fs None"

text \<open>
  \<^verbatim>\<open>next_turn\<close>. \<open>tunr\<close> is the value of the framework's
  \<^verbatim>\<open>self.time_until_next_repeat()\<close> at the call.
\<close>

definition next_turn :: "int \<Rightarrow> world \<Rightarrow> script_id \<Rightarrow> unit outcome" where
  "next_turn tunr w h =
     (let s = scripts w h; fs = fighters s in
      if disengage_check w fs
      then (Inr (), stop (send w (All_disengaged (obj s))) h)
      else if defeated_characters w fs = int (length fs) - 1
      then (case last_standing w fs of
              None \<Rightarrow> (Inl UnboundLocalError, w)
            | Some l \<Rightarrow> (Inr (), stop (send w (Only_remains (obj s) l)) h))
      else if \<not> turn s < length fs then (Inl IndexError, w)
      else
        (let currentchar = fs ! turn s;
             t1 = turn s + 1;
             t2 = (if int t1 > int (length fs) - 1 then 0 else t1);
             w1 = upd_script w h (\<lambda>s. s\<lparr>turn := t2\<rparr>)
         in if \<not> t2 < length fs then (Inl IndexError, w1)
            else
              (let newchar = fs ! t2;
                   w2 = upd_script w1 h
                          (\<lambda>s. s\<lparr>timer := TURN_TIMEOUT + tunr, timeout_warning_given := False\<rparr>);
                   w3 = send w2 (Turn_change (obj s) currentchar newchar)
               in start_turn w3 newchar)))"

definition turn_end_check :: "int \<Rightarrow> world \<Rightarrow> script_id \<Rightarrow> obj_id \<Rightarrow> unit outcome" where
  "turn_end_check tunr w h c =
     (if \<not> truthy (combat_actionsleft (chars w c)) then next_turn tunr w h else (Inr (), w))"

text \<open>\<^verbatim>\<open>spend_action\<close> (lines 278-298). \<^verbatim>\<open>if action_name:\<close> is false for
  \<^verbatim>\<open>None\<close> and for the empty string; subtracting from an unset
  \<^verbatim>\<open>combat_actionsleft\<close> raises \<^verbatim>\<open>TypeError\<close>; calling a method of an unset
  \<^verbatim>\<open>combat_turnhandler\<close> raises \<^verbatim>\<open>AttributeError\<close>.\<close>

definition set_lastaction :: "world \<Rightarrow> obj_id \<Rightarrow> string option \<Rightarrow> world" where
  "set_lastaction w c action_name =
     (case action_name of
        None \<Rightarrow> w
      | Some n \<Rightarrow> if n \<noteq> [] then upd_char w c (\<lambda>ch. ch\<lparr>combat_lastaction := Some n\<rparr>) else w)"

definition spend_action ::
  "int \<Rightarrow> world \<Rightarrow> obj_id \<Rightarrow> amount \<Rightarrow> string option \<Rightarrow> unit outcome" where
  "spend_action tunr w c actions action_name =
     (let w1 = set_lastaction w c action_name;
          r = (case actions of
                 All \<Rightarrow> Inr (upd_char w1 c (\<lambda>ch. ch\<lparr>combat_actionsleft := Some 0\<rparr>))
               | Amt a \<Rightarrow>
                   (case combat_actionsleft (chars w1 c) of
                      None \<Rightarrow> Inl TypeError
                    | Some k \<Rightarrow>
                        Inr (upd_char w1 c
                               (\<lambda>ch. ch\<lparr>combat_actionsleft :=
                                          Some (if k - a < 0 then 0 else k - a)\<rparr>))))
      in case r of
           Inl e \<Rightarrow> (Inl e, w1)
         | Inr w2 \<Rightarrow>
             (case combat_turnhandler (chars w2 c) of
                None \<Rightarrow> (Inl AttributeError, w2)
              | Some h \<Rightarrow> turn_end_check tunr w2 h c))"

text \<open>\<^verbatim>\<open>at_repeat\<close>, the periodic tick.\<close>

definition at_repeat :: "int \<Rightarrow> world \<Rightarrow> script_id \<Rightarrow> unit outcome" where
  "at_repeat tunr w h =
     (let s = scripts w h in
      if \<not> turn s < length (fighters s) then (Inl IndexError, w)
      else
        (let currentchar = fighters s ! turn s;
             w1 = upd_script w h (\<lambda>s. s\<lparr>timer := timer s - interval s\<rparr>)
         in if timer (scripts w1 h) \<le> 0
            then spend_action tunr (send w1 (Timed_out (obj s) currentchar))
                   currentchar All (Some ''disengage'')
            else if timer (scripts w1 h) \<le> 10 \<and> \<not> timeout_warning_given (scripts w1 h)
            then (Inr (), upd_script (send w1 (Timeout_warning currentchar)) h
                            (\<lambda>s. s\<lparr>timeout_warning_given := True\<rparr>))
            else (Inr (), w1)))"

text \<open>\<^verbatim>\<open>join_fight\<close>. For an index \<open>i \<ge> 0\<close>, \<^verbatim>\<open>list.insert(i, x)\<close> puts \<open>x\<close>
  before the element at index \<open>i\<close>, and at the end when \<open>i\<close> is past it.\<close>

definition list_insert :: "'a list \<Rightarrow> nat \<Rightarrow> 'a \<Rightarrow> 'a list" where
  "list_insert xs i x = take i xs @ x # drop i xs"

definition join_fight :: "world \<Rightarrow> script_id \<Rightarrow> obj_id \<Rightarrow> world" where
  "join_fight w h c =
     (let w1 = upd_script w h (\<lambda>s. s\<lparr>fighters := list_insert (fighters s) (turn s) c\<rparr>);
          w2 = upd_script w1 h (\<lambda>s. s\<lparr>turn := turn s + 1\<rparr>)
      in initialize_for_combat w2 h c)"

text \<open>
  \<^verbatim>\<open>at_script_creation\<close>. \<^verbatim>\<open>sorted(..., key=roll_init, reverse=True)\<close> calls the key
  once for each element in list order and sorts stably in descending order of the key
  (elements with equal keys keep their order), which is a stable ascending sort on the
  negated key.
\<close>

definition ordered_by_roll :: "(nat \<Rightarrow> int) \<Rightarrow> obj_id list \<Rightarrow> (int \<times> obj_id) list" where
  "ordered_by_roll rnd fs =
     sort_key (\<lambda>p. - fst p) (map (\<lambda>k. (roll_init rnd k (fs ! k), fs ! k)) [0..<length fs])"

definition new_script :: "obj_id \<Rightarrow> turnhandler" where
  "new_script r = \<lparr>obj = r, interval = 5, is_active = True, fighters = [], turn = 0,
                   timer = 0, timeout_warning_given = False\<rparr>"

text \<open>The first loop of \<^verbatim>\<open>at_script_creation\<close> (lines 410-412): the things in the room
  whose \<^verbatim>\<open>hp\<close> is true.\<close>

definition room_fighters :: "world \<Rightarrow> obj_id \<Rightarrow> obj_id list" where
  "room_fighters w r = filter (\<lambda>thing. truthy (hp (chars w thing))) (contents (rooms w r))"

definition at_script_creation ::
  "(nat \<Rightarrow> int) \<Rightarrow> world \<Rightarrow> script_id \<Rightarrow> obj_id \<Rightarrow> unit outcome" where
  "at_script_creation rnd w h r =
     (let fs = room_fighters w r;
          w1 = w\<lparr>scripts := (scripts w)(h := (new_script r)\<lparr>fighters := fs\<rparr>)\<rparr>;
          w2 = fold (\<lambda>fighter w'. initialize_for_combat w' h fighter) fs w1;
          w3 = upd_room w2 r (\<lambda>rm. rm\<lparr>room_combat_turnhandler := Some h\<rparr>);
          ordered = map snd (ordered_by_roll rnd fs);
          w4 = upd_script w3 h (\<lambda>s. s\<lparr>fighters := ordered\<rparr>);
          w5 = send w4 (Turn_order r ordered)
      in case ordered of
           [] \<Rightarrow> (Inl IndexError, w5)
         | first # _ \<Rightarrow>
             (case start_turn w5 first of
                (Inl e, w6) \<Rightarrow> (Inl e, w6)
              | (Inr _, w6) \<Rightarrow>
                  (Inr (), upd_script w6 h (\<lambda>s. s\<lparr>turn := 0, timer := TURN_TIMEOUT\<rparr>))))"

text \<open>\<^verbatim>\<open>apply_damage\<close> (lines 173-185): subtracting from an unset \<^verbatim>\<open>hp\<close> raises
  \<^verbatim>\<open>TypeError\<close>.\<close>

definition apply_damage :: "world \<Rightarrow> obj_id \<Rightarrow> int \<Rightarrow> unit outcome" where
  "apply_damage w defender damage =
     (case hp (chars w defender) of
        None \<Rightarrow> (Inl TypeError, w)
      | Some n \<Rightarrow>
          (Inr (), upd_char w defender
                     (\<lambda>ch. ch\<lparr>hp := Some (if n - damage \<le> 0 then 0 else n - damage)\<rparr>)))"

subsection \<open>Drivers and example fights\<close>

text \<open>The periodic timer: \<open>ticks n\<close> calls \<open>at_repeat\<close> \<open>n\<close> times and stops at the
  first exception.\<close>

fun ticks :: "nat \<Rightarrow> int \<Rightarrow> world \<Rightarrow> script_id \<Rightarrow> unit outcome" where
  "ticks 0 tunr w h = (Inr (), w)"
| "ticks (Suc n) tunr w h =
     (case at_repeat tunr w h of
        (Inl e, w') \<Rightarrow> (Inl e, w')
      | (Inr _, w') \<Rightarrow> ticks n tunr w' h)"

text \<open>The store that the rotating branch of \<open>next_turn\<close> hands to \<open>start_turn\<close>.\<close>

definition cycled :: "int \<Rightarrow> world \<Rightarrow> script_id \<Rightarrow> world" where
  "cycled tunr w h =
     (let s = scripts w h; t2 = (turn s + 1) mod length (fighters s) in
      w\<lparr>scripts := (scripts w)(h := s\<lparr>turn := t2, timer := TURN_TIMEOUT + tunr,
                                       timeout_warning_given := False\<rparr>),
        msgs := msgs w @ [Turn_change (obj s) (fighters s ! turn s) (fighters s ! t2)]\<rparr>)"

text \<open>The store in which \<open>spend_action\<close> calls \<open>turn_end_check\<close>.\<close>

definition spent :: "world \<Rightarrow> obj_id \<Rightarrow> string option \<Rightarrow> int \<Rightarrow> world" where
  "spent w c la n =
     w\<lparr>chars := (chars w)(c := (chars w c)\<lparr>combat_lastaction := la,
                                                combat_actionsleft := Some n\<rparr>)\<rparr>"

text \<open>Room 0 holding the objects \<open>cs\<close> with the given health, nobody in combat, no
  script running.\<close>

definition arena :: "obj_id list \<Rightarrow> (obj_id \<Rightarrow> int option) \<Rightarrow> world" where
  "arena cs health =
     \<lparr>chars = (\<lambda>c. \<lparr>hp = health c, combat_actionsleft = None, combat_turnhandler = None,
                      combat_lastaction = None\<rparr>),
      rooms = (\<lambda>r. \<lparr>contents = (if r = 0 then cs else []), room_combat_turnhandler = None\<rparr>),
      scripts = (\<lambda>h. (new_script 0)\<lparr>is_active := False\<rparr>),
      msgs = []\<rparr>"

text \<open>A fight of two, started as script 5 with initiative rolls 500, 499, ...: the
  roster is \<open>[1, 2]\<close>. In \<open>duel_mid\<close> fighter 1 has disengaged and it is the turn of
  fighter 2; \<open>duel_last_check\<close> is the store in which the disengaging fighter 2 reaches
  the end-of-turn evaluation, \<open>duel_over\<close> the store after it.\<close>

definition duel_start :: world where
  "duel_start = snd (at_script_creation (\<lambda>k. 500 - int k) (arena [1, 2] (\<lambda>c. Some 100)) 5 0)"

definition duel_mid :: world where
  "duel_mid = snd (spend_action 0 duel_start 1 All (Some ''disengage''))"

definition duel_last_check :: world where
  "duel_last_check = spent duel_mid 2 (Some ''disengage'') 0"

definition duel_over :: world where
  "duel_over = snd (spend_action 0 duel_mid 2 All (Some ''disengage''))"

text \<open>A fight of three, roster \<open>[1, 2, 3]\<close>. In \<open>trio_two_down\<close> fighters 2 and 3 have been
  brought to 0 health during the first turn of fighter 1; \<open>trio_last_check\<close> is the store
  in which the attacking fighter 1 reaches the end-of-turn evaluation, \<open>trio_over\<close> the
  store after it.\<close>

definition trio_start :: world where
  "trio_start = snd (at_script_creation (\<lambda>k. 500 - int k) (arena [1, 2, 3] (\<lambda>c. Some 100)) 5 0)"

definition trio_two_down :: world where
  "trio_two_down = snd (apply_damage (snd (apply_damage trio_start 2 100)) 3 120)"

definition trio_last_check :: world where
  "trio_last_check = spent trio_two_down 1 (Some ''attack'') 0"

definition trio_over :: world where
  "trio_over = snd (spend_action 0 trio_two_down 1 (Amt 1) (Some ''attack''))"

text \<open>The last evaluation of the fight of two, with fighter 1 at 0 health.\<close>

definition duel_down_check :: world where
  "duel_down_check = snd (apply_damage duel_last_check 1 100)"

text \<open>The fight of three with fighter 3 defeated before acting: in \<open>trio_mid\<close> fighter 1
  has disengaged, in \<open>trio_mid_check\<close> fighter 2 has too and reaches the evaluation.\<close>

definition trio_mid :: world where
  "trio_mid = snd (spend_action 0 (snd (apply_damage trio_start 3 100)) 1 All (Some ''disengage''))"

definition trio_mid_check :: world where
  "trio_mid_check = spent trio_mid 2 (Some ''disengage'') 0"

text \<open>The spec's eligibility, ``every candidate with positive health'', to compare with
  the test of the code in \<open>room_fighters\<close>.\<close>

definition positive_health :: "world \<Rightarrow> obj_id \<Rightarrow> bool" where
  "positive_health w thing = (case hp (chars w thing) of None \<Rightarrow> False | Some n \<Rightarrow> 0 < n)"

text \<open>Four fighters with the rolls 300, 700, 300, 700, and a room in which the third
  thing has health -5.\<close>

definition crowd :: world where
  "crowd = arena [1, 2, 3, 4] (\<lambda>c. Some 100)"

definition crowd_rolls :: "nat \<Rightarrow> int" where
  "crowd_rolls k = (if even k then 300 else 700)"

definition wounded :: world where
  "wounded = arena [1, 2, 3] (\<lambda>c. if c = 3 then Some (- 5) else Some 100)"

text \<open>The store in which a tick that has run out of time reaches \<open>next_turn\<close>: countdown
  \<open>t\<close>, warning flag \<open>warned\<close>, the messages \<open>ms\<close> and the time-out announcement sent,
  the current fighter with no actions left and the last action \<open>disengage\<close>.\<close>

definition timed_out :: "world \<Rightarrow> script_id \<Rightarrow> int \<Rightarrow> bool \<Rightarrow> event list \<Rightarrow> world" where
  "timed_out w h t warned ms =
     (let s = scripts w h; currentchar = fighters s ! turn s in
      spent (w\<lparr>scripts := (scripts w)(h := s\<lparr>timer := t, timeout_warning_given := warned\<rparr>),
               msgs := msgs w @ ms @ [Timed_out (obj s) currentchar]\<rparr>)
        currentchar (Some ''disengage'') 0)"

text \<open>The fight of two after fighter 1 passed 3 seconds before the next repeat.\<close>

definition duel_passed :: world where
  "duel_passed = snd (spend_action 3 duel_start 1 All (Some ''pass''))"

text \<open>The new fight of two after five ticks.\<close>

definition duel_late :: world where
  "duel_late = snd (ticks 5 0 duel_start 5)"

text \<open>Two characters in a room, no fight.\<close>

definition idle :: world where
  "idle = arena [1, 2] (\<lambda>c. Some 100)"

section \<open>Auxiliary facts\<close>

lemma fold_cleanup_chars:
  "chars (fold (\<lambda>fighter w'. combat_cleanup w' fighter) fs w) =
     (\<lambda>c. if c \<in> set fs then cleanup_attrs (chars w c) else chars w c)"
proof (induction fs arbitrary: w)
  case Nil
  show ?case by simp
next
  case (Cons f fs)
  show ?case
  proof -
    have "chars (combat_cleanup w f) = (chars w)(f := cleanup_attrs (chars w f))"
      by (simp add: combat_cleanup_def upd_char_def)
    moreover have "cleanup_attrs (cleanup_attrs (chars w f)) = cleanup_attrs (chars w f)"
      by (simp add: cleanup_attrs_def)
    ultimately show ?thesis
      by (simp add: Cons.IH fun_eq_iff)
  qed
qed

lemma cleanup_keeps:
  "rooms (combat_cleanup w f) = rooms w"
  "scripts (combat_cleanup w f) = scripts w"
  "msgs (combat_cleanup w f) = msgs w"
  by (simp_all add: combat_cleanup_def upd_char_def)

lemma fold_cleanup_rooms:
  "rooms (fold (\<lambda>fighter w'. combat_cleanup w' fighter) fs w) = rooms w"
  by (induction fs arbitrary: w) (simp_all add: cleanup_keeps)

lemma fold_cleanup_scripts:
  "scripts (fold (\<lambda>fighter w'. combat_cleanup w' fighter) fs w) = scripts w"
  by (induction fs arbitrary: w) (simp_all add: cleanup_keeps)

lemma fold_cleanup_msgs:
  "msgs (fold (\<lambda>fighter w'. combat_cleanup w' fighter) fs w) = msgs w"
  by (induction fs arbitrary: w) (simp_all add: cleanup_keeps)

lemma disengage_check_fold:
  "fold (\<lambda>fighter b. if combat_lastaction (chars w fighter) \<noteq> Some ''disengage''
                        then False else b) fs b0 =
   (b0 \<and> (\<forall>f \<in> set fs. combat_lastaction (chars w f) = Some ''disengage''))"
  by (induction fs arbitrary: b0) auto

lemma disengage_check_iff:
  "disengage_check w fs \<longleftrightarrow> (\<forall>f \<in> set fs. combat_lastaction (chars w f) = Some ''disengage'')"
  by (simp add: disengage_check_def disengage_check_fold)

lemma defeated_fold:
  "fold (\<lambda>fighter n. if hp (chars w fighter) = Some 0 then n + 1 else n) fs n0 =
   n0 + int (length (filter (\<lambda>f. hp (chars w f) = Some 0) fs))"
  by (induction fs arbitrary: n0) auto

lemma defeated_characters_count:
  "defeated_characters w fs = int (length (filter (\<lambda>f. hp (chars w f) = Some 0) fs))"
  by (simp add: defeated_characters_def defeated_fold)

lemma last_standing_fold:
  "fold (\<lambda>fighter l. if hp (chars w fighter) \<noteq> Some 0 then Some fighter else l) fs l0 =
   (case filter (\<lambda>f. hp (chars w f) \<noteq> Some 0) fs of [] \<Rightarrow> l0 | _ \<Rightarrow> Some (last (filter (\<lambda>f. hp (chars w f) \<noteq> Some 0) fs)))"
  by (induction fs arbitrary: l0) (auto split: list.splits)

lemma at_stop_fields:
  "chars (at_stop w h) = (\<lambda>c. if c \<in> set (fighters (scripts w h)) then cleanup_attrs (chars w c) else chars w c)"
  "scripts (at_stop w h) = scripts w"
  "msgs (at_stop w h) = msgs w"
  "rooms (at_stop w h) = (rooms w)(obj (scripts w h) := (rooms w (obj (scripts w h)))\<lparr>room_combat_turnhandler := None\<rparr>)"
  by (simp_all add: at_stop_def Let_def upd_room_def fold_cleanup_chars fold_cleanup_rooms fold_cleanup_scripts fold_cleanup_msgs)

lemma stop_fields:
  "chars (stop w h) = (\<lambda>c. if c \<in> set (fighters (scripts w h)) then cleanup_attrs (chars w c) else chars w c)"
  "scripts (stop w h) = (scripts w)(h := (scripts w h)\<lparr>is_active := False\<rparr>)"
  "msgs (stop w h) = msgs w"
  "rooms (stop w h) = (rooms w)(obj (scripts w h) := (rooms w (obj (scripts w h)))\<lparr>room_combat_turnhandler := None\<rparr>)"
  by (simp_all add: stop_def upd_script_def at_stop_fields)

lemma start_turn_fields:
  "chars (snd (start_turn w c)) = (chars w)(c := (chars w c)\<lparr>combat_actionsleft := Some ACTIONS_PER_TURN\<rparr>)"
  "scripts (snd (start_turn w c)) = scripts w"
  "rooms (snd (start_turn w c)) = rooms w"
  by (simp_all add: start_turn_def Let_def upd_char_def send_def split: option.splits)

lemma start_turn_ok:
  "hp (chars w c) = Some n \<Longrightarrow> fst (start_turn w c) = Inr () \<and> msgs (snd (start_turn w c)) = msgs w @ [Your_turn c n]"
  by (simp add: start_turn_def Let_def upd_char_def send_def)

lemma last_standing_sole:
  assumes "filter (\<lambda>f. hp (chars w f) \<noteq> Some 0) fs = [l]"
  shows "last_standing w fs = Some l"
  using assms by (simp add: last_standing_def last_standing_fold)

lemma sole_survivor_exists:
  assumes "length (filter (\<lambda>f. hp (chars w f) = Some 0) fs) + 1 = length fs"
  shows "\<exists>l. filter (\<lambda>f. hp (chars w f) \<noteq> Some 0) fs = [l]"
proof -
  have "length (filter (\<lambda>f. hp (chars w f) = Some 0) fs) +
        length (filter (\<lambda>f. \<not> hp (chars w f) = Some 0) fs) = length fs"
    by (rule sum_length_filter_compl)
  with assms have "length (filter (\<lambda>f. hp (chars w f) \<noteq> Some 0) fs) = 1"
    by simp
  then show ?thesis
    by (cases "filter (\<lambda>f. hp (chars w f) \<noteq> Some 0) fs") auto
qed

lemma next_turn_disengaged:
  "disengage_check w (fighters (scripts w h)) \<Longrightarrow>
   next_turn tunr w h = (Inr (), stop (send w (All_disengaged (obj (scripts w h)))) h)"
  by (simp add: next_turn_def Let_def)

lemma next_turn_last:
  "\<not> disengage_check w (fighters (scripts w h)) \<Longrightarrow>
   defeated_characters w (fighters (scripts w h)) = int (length (fighters (scripts w h))) - 1 \<Longrightarrow>
   last_standing w (fighters (scripts w h)) = Some l \<Longrightarrow>
   next_turn tunr w h = (Inr (), stop (send w (Only_remains (obj (scripts w h)) l)) h)"
  by (simp add: next_turn_def Let_def)

lemma next_turn_cycle:
  assumes "\<not> disengage_check w (fighters (scripts w h))"
    and "defeated_characters w (fighters (scripts w h)) \<noteq> int (length (fighters (scripts w h))) - 1"
    and "turn (scripts w h) < length (fighters (scripts w h))"
  shows "next_turn tunr w h =
         start_turn (cycled tunr w h)
           (fighters (scripts w h) ! ((turn (scripts w h) + 1) mod length (fighters (scripts w h))))"
proof (cases "turn (scripts w h) + 1 < length (fighters (scripts w h))")
  case True
  then have m: "(turn (scripts w h) + 1) mod length (fighters (scripts w h)) = turn (scripts w h) + 1"
    by simp
  have c: "\<not> int (turn (scripts w h) + 1) > int (length (fighters (scripts w h))) - 1"
    using True by linarith
  show ?thesis
    unfolding next_turn_def Let_def m cycled_def
    using assms True c
    by (simp add: upd_script_def send_def del: One_nat_def)
next
  case False
  with assms(3) have e: "turn (scripts w h) + 1 = length (fighters (scripts w h))"
    by linarith
  then have m: "(turn (scripts w h) + 1) mod length (fighters (scripts w h)) = 0"
    by simp
  have c: "int (turn (scripts w h) + 1) > int (length (fighters (scripts w h))) - 1"
    using e by linarith
  have pos: "0 < length (fighters (scripts w h))"
    using assms(3) by linarith
  show ?thesis
    unfolding next_turn_def Let_def m cycled_def
    using assms c pos
    by (simp add: upd_script_def send_def del: One_nat_def)
qed

lemma next_turn_keeps_fighters:
  "fighters (scripts (snd (next_turn tunr w h)) h) = fighters (scripts w h)"
  by (simp add: next_turn_def Let_def stop_fields send_def start_turn_fields upd_script_def
      split: option.splits)

lemma next_turn_actionsleft:
  "combat_actionsleft (chars (snd (next_turn tunr w h)) c) = None \<or>
   combat_actionsleft (chars (snd (next_turn tunr w h)) c) = Some ACTIONS_PER_TURN \<or>
   combat_actionsleft (chars (snd (next_turn tunr w h)) c) = combat_actionsleft (chars w c)"
  by (simp add: next_turn_def Let_def stop_fields send_def start_turn_fields upd_script_def
      cleanup_attrs_def split: option.splits)


lemma next_turn_no_disengage_msg:
  assumes "\<not> disengage_check w (fighters (scripts w h))"
  shows "All_disengaged r \<in> set (msgs (snd (next_turn tunr w h))) \<longrightarrow> All_disengaged r \<in> set (msgs w)"
  using assms
  by (simp add: next_turn_def Let_def stop_fields send_def start_turn_def upd_script_def upd_char_def
      split: option.splits)

lemma initialize_fields:
  "chars (initialize_for_combat w h c) =
     (chars w)(c := (chars w c)\<lparr>combat_actionsleft := Some 0, combat_turnhandler := Some h,
                                  combat_lastaction := Some ''null''\<rparr>)"
  "rooms (initialize_for_combat w h c) = rooms w"
  "scripts (initialize_for_combat w h c) = scripts w"
  "msgs (initialize_for_combat w h c) = msgs w"
  by (simp_all add: initialize_for_combat_def combat_cleanup_def upd_char_def cleanup_attrs_def)

lemma fold_init_chars:
  "chars (fold (\<lambda>fighter w'. initialize_for_combat w' h fighter) fs w) =
     (\<lambda>c. if c \<in> set fs
          then (chars w c)\<lparr>combat_actionsleft := Some 0, combat_turnhandler := Some h,
                           combat_lastaction := Some ''null''\<rparr>
          else chars w c)"
proof (induction fs arbitrary: w)
  case Nil
  show ?case by simp
next
  case (Cons f fs)
  show ?case
    by (simp add: Cons.IH initialize_fields fun_eq_iff)
qed

lemma fold_init_rooms:
  "rooms (fold (\<lambda>fighter w'. initialize_for_combat w' h fighter) fs w) = rooms w"
  by (induction fs arbitrary: w) (simp_all add: initialize_fields)

lemma fold_init_scripts:
  "scripts (fold (\<lambda>fighter w'. initialize_for_combat w' h fighter) fs w) = scripts w"
  by (induction fs arbitrary: w) (simp_all add: initialize_fields)

lemma fold_init_msgs:
  "msgs (fold (\<lambda>fighter w'. initialize_for_combat w' h fighter) fs w) = msgs w"
  by (induction fs arbitrary: w) (simp_all add: initialize_fields)

lemma keyed_is_zip:
  "map (\<lambda>k. (roll_init rnd k (fs ! k), fs ! k)) [0..<length fs] = zip (map rnd [0..<length fs]) fs"
  by (rule nth_equalityI) (simp_all add: roll_init_def)

lemma ordered_by_roll_mset:
  "mset (ordered_by_roll rnd fs) = mset (zip (map rnd [0..<length fs]) fs)"
  by (simp add: ordered_by_roll_def keyed_is_zip)

lemma ordered_by_roll_members:
  "mset (map snd (ordered_by_roll rnd fs)) = mset fs"
proof -
  have "mset (map snd (ordered_by_roll rnd fs)) = image_mset snd (mset (ordered_by_roll rnd fs))"
    by (simp only: mset_map)
  also have "\<dots> = image_mset snd (mset (zip (map rnd [0..<length fs]) fs))"
    by (simp only: ordered_by_roll_mset)
  also have "\<dots> = mset (map snd (zip (map rnd [0..<length fs]) fs))"
    by (simp only: mset_map)
  also have "map snd (zip (map rnd [0..<length fs]) fs) = fs"
    by simp
  finally show ?thesis .
qed

lemma ordered_by_roll_sorted:
  "sorted_wrt (\<lambda>a b. fst b \<le> fst a) (ordered_by_roll rnd fs)"
proof -
  have "sorted (map (\<lambda>p. - fst p) (ordered_by_roll rnd fs))"
    unfolding ordered_by_roll_def by (rule sorted_sort_key)
  then show ?thesis
    by (simp add: sorted_map)
qed

lemma ordered_by_roll_stable:
  "filter (\<lambda>p. fst p = v) (ordered_by_roll rnd fs) =
   filter (\<lambda>p. fst p = v) (zip (map rnd [0..<length fs]) fs)"
proof -
  have "filter (\<lambda>p. - fst p = - v) (ordered_by_roll rnd fs) =
        filter (\<lambda>p. - fst p = - v) (zip (map rnd [0..<length fs]) fs)"
    unfolding ordered_by_roll_def keyed_is_zip by (rule sort_key_stable)
  then show ?thesis by simp
qed

lemma at_script_creation_ok:
  assumes "room_fighters w r \<noteq> []"
  shows "fst (at_script_creation rnd w h r) = Inr () \<and>
         scripts (snd (at_script_creation rnd w h r)) h =
           \<lparr>obj = r, interval = 5, is_active = True,
            fighters = map snd (ordered_by_roll rnd (room_fighters w r)),
            turn = 0, timer = TURN_TIMEOUT, timeout_warning_given = False\<rparr>"
proof -
  let ?fs = "room_fighters w r"
  let ?ord = "map snd (ordered_by_roll rnd ?fs)"
  have "size (mset ?ord) = size (mset ?fs)"
    by (simp only: ordered_by_roll_members)
  then have "?ord \<noteq> []"
    using assms by auto
  then obtain first rest where ord: "?ord = first # rest"
    by (cases ?ord) auto
  have "set ?ord = set ?fs"
    using ordered_by_roll_members [of rnd ?fs] by (rule mset_eq_setD)
  then have "first \<in> set ?fs"
    using ord by auto
  then have "truthy (hp (chars w first))"
    by (simp add: room_fighters_def)
  then obtain n where n: "hp (chars w first) = Some n"
    by (auto simp: truthy_def split: option.splits)
  show ?thesis
    unfolding at_script_creation_def Let_def ord
    using n
    by (simp add: start_turn_def Let_def upd_char_def upd_script_def upd_room_def send_def
        fold_init_chars fold_init_scripts new_script_def)
qed

lemma cycled_fields:
  "scripts (cycled tunr w h) h =
     (scripts w h)\<lparr>turn := (turn (scripts w h) + 1) mod length (fighters (scripts w h)),
                    timer := TURN_TIMEOUT + tunr, timeout_warning_given := False\<rparr>"
  "chars (cycled tunr w h) = chars w"
  by (simp_all add: cycled_def Let_def)

lemma not_last_standing:
  "length (filter (\<lambda>f. hp (chars w f) = Some 0) fs) + 1 \<noteq> length fs \<Longrightarrow>
   defeated_characters w fs \<noteq> int (length fs) - 1"
  by (simp add: defeated_characters_count)

lemma turn_end_check_actionsleft:
  assumes "\<forall>n. combat_actionsleft (chars w c) = Some n \<longrightarrow> 0 \<le> n"
  shows "\<forall>n. combat_actionsleft (chars (snd (turn_end_check tunr w h p)) c) = Some n \<longrightarrow> 0 \<le> n"
proof (cases "truthy (combat_actionsleft (chars w p))")
  case True
  then show ?thesis using assms by (simp add: turn_end_check_def)
next
  case False
  then have "turn_end_check tunr w h p = next_turn tunr w h"
    by (simp add: turn_end_check_def)
  then show ?thesis
    using next_turn_actionsleft [of tunr w h c] assms
    by (auto simp: ACTIONS_PER_TURN_def)
qed

lemma spend_all_disengage:
  assumes "combat_turnhandler (chars w c) = Some h"
  shows "spend_action tunr w c All (Some ''disengage'') =
         next_turn tunr (spent w c (Some ''disengage'') 0) h"
  using assms
  by (simp add: spend_action_def set_lastaction_def upd_char_def spent_def turn_end_check_def truthy_def)

lemma at_repeat_timeout:
  assumes "turn (scripts w h) < length (fighters (scripts w h))"
    and "timer (scripts w h) - interval (scripts w h) \<le> 0"
    and "combat_turnhandler (chars w (fighters (scripts w h) ! turn (scripts w h))) = Some h"
  shows "at_repeat tunr w h =
         next_turn tunr
           (timed_out w h (timer (scripts w h) - interval (scripts w h))
              (timeout_warning_given (scripts w h)) []) h"
proof -
  let ?s = "scripts w h"
  let ?c = "fighters ?s ! turn ?s"
  let ?w1 = "send (upd_script w h (\<lambda>s. s\<lparr>timer := timer s - interval s\<rparr>)) (Timed_out (obj ?s) ?c)"
  have a: "at_repeat tunr w h = spend_action tunr ?w1 ?c All (Some ''disengage'')"
    using assms(1,2) by (simp add: at_repeat_def Let_def upd_script_def)
  have b: "combat_turnhandler (chars ?w1 ?c) = Some h"
    using assms(3) by (simp add: send_def upd_script_def)
  have c: "spent ?w1 ?c (Some ''disengage'') 0 =
           timed_out w h (timer ?s - interval ?s) (timeout_warning_given ?s) []"
    by (simp add: timed_out_def Let_def spent_def send_def upd_script_def)
  show ?thesis
    by (simp only: a spend_all_disengage [OF b] c)
qed

lemma at_repeat_quiet:
  assumes "turn (scripts w h) < length (fighters (scripts w h))"
    and "10 < timer (scripts w h) - interval (scripts w h)"
  shows "at_repeat tunr w h =
         (Inr (), w\<lparr>scripts := (scripts w)(h := (scripts w h)\<lparr>timer := timer (scripts w h) - interval (scripts w h)\<rparr>)\<rparr>)"
  using assms by (simp add: at_repeat_def Let_def upd_script_def)

lemma at_repeat_warning:
  assumes "turn (scripts w h) < length (fighters (scripts w h))"
    and "0 < timer (scripts w h) - interval (scripts w h)"
    and "timer (scripts w h) - interval (scripts w h) \<le> 10"
  shows "at_repeat tunr w h =
         (Inr (), w\<lparr>scripts := (scripts w)(h := (scripts w h)\<lparr>timer := timer (scripts w h) - interval (scripts w h),
                                                            timeout_warning_given := True\<rparr>),
                   msgs := msgs w @ (if timeout_warning_given (scripts w h) then []
                                     else [Timeout_warning (fighters (scripts w h) ! turn (scripts w h))])\<rparr>)"
proof (cases "timeout_warning_given (scripts w h)")
  case True
  then have eq: "(scripts w h)\<lparr>timer := timer (scripts w h) - interval (scripts w h),
                            timeout_warning_given := True\<rparr> =
             (scripts w h)\<lparr>timer := timer (scripts w h) - interval (scripts w h)\<rparr>"
    by (intro turnhandler.equality) simp_all
  have "at_repeat tunr w h =
        (Inr (), w\<lparr>scripts := (scripts w)(h := (scripts w h)\<lparr>timer := timer (scripts w h) - interval (scripts w h)\<rparr>)\<rparr>)"
    using assms True by (simp add: at_repeat_def Let_def upd_script_def send_def)
  then show ?thesis
    using True by (simp only: eq) simp
next
  case False
  then show ?thesis
    using assms by (simp add: at_repeat_def Let_def upd_script_def send_def)
qed

lemma ticks_one: "ticks (Suc 0) tunr w h = at_repeat tunr w h"
  by (simp split: prod.splits sum.splits)

lemma ticks_past_five:
  assumes "turn (scripts w h) < length (fighters (scripts w h))"
    and "timer (scripts w h) = TURN_TIMEOUT"
    and "interval (scripts w h) = 5"
  shows "ticks (Suc (Suc (Suc (Suc (Suc n))))) tunr w h =
         ticks n tunr
           (w\<lparr>scripts := (scripts w)(h := (scripts w h)\<lparr>timer := 5, timeout_warning_given := True\<rparr>),
              msgs := msgs w @ (if timeout_warning_given (scripts w h) then []
                                else [Timeout_warning (fighters (scripts w h) ! turn (scripts w h))])\<rparr>) h"
proof -
  let ?s = "scripts w h"
  define w1 where "w1 = w\<lparr>scripts := (scripts w)(h := ?s\<lparr>timer := 25\<rparr>)\<rparr>"
  define w2 where "w2 = w\<lparr>scripts := (scripts w)(h := ?s\<lparr>timer := 20\<rparr>)\<rparr>"
  define w3 where "w3 = w\<lparr>scripts := (scripts w)(h := ?s\<lparr>timer := 15\<rparr>)\<rparr>"
  define w4 where "w4 = w\<lparr>scripts := (scripts w)(h := ?s\<lparr>timer := 10, timeout_warning_given := True\<rparr>),
                   msgs := msgs w @ (if timeout_warning_given ?s then []
                                     else [Timeout_warning (fighters ?s ! turn ?s)])\<rparr>"
  define w5 where "w5 = w\<lparr>scripts := (scripts w)(h := ?s\<lparr>timer := 5, timeout_warning_given := True\<rparr>),
                   msgs := msgs w @ (if timeout_warning_given ?s then []
                                     else [Timeout_warning (fighters ?s ! turn ?s)])\<rparr>"
  have t1: "at_repeat tunr w h = (Inr (), w1)"
    using at_repeat_quiet [of w h tunr] assms by (simp add: TURN_TIMEOUT_def w1_def)
  have t2: "at_repeat tunr w1 h = (Inr (), w2)"
    using at_repeat_quiet [of w1 h tunr] assms by (simp add: w1_def w2_def)
  have t3: "at_repeat tunr w2 h = (Inr (), w3)"
    using at_repeat_quiet [of w2 h tunr] assms by (simp add: w2_def w3_def)
  have t4: "at_repeat tunr w3 h = (Inr (), w4)"
    using at_repeat_warning [of w3 h tunr] assms by (simp add: w3_def w4_def)
  have t5: "at_repeat tunr w4 h = (Inr (), w5)"
    using at_repeat_warning [of w4 h tunr] assms by (simp add: w4_def w5_def)
  have "ticks (Suc (Suc (Suc (Suc (Suc n))))) tunr w h = ticks n tunr w5 h"
    by (simp add: t1 t2 t3 t4 t5)
  then show ?thesis
    by (simp add: w5_def)
qed

lemma six_ticks:
  assumes "turn (scripts w h) < length (fighters (scripts w h))"
    and "timer (scripts w h) = TURN_TIMEOUT"
    and "interval (scripts w h) = 5"
    and "combat_turnhandler (chars w (fighters (scripts w h) ! turn (scripts w h))) = Some h"
  shows "ticks 6 tunr w h =
         next_turn tunr
           (timed_out w h 0 True
              (if timeout_warning_given (scripts w h) then []
               else [Timeout_warning (fighters (scripts w h) ! turn (scripts w h))])) h"
proof -
  let ?s = "scripts w h"
  let ?ms = "if timeout_warning_given ?s then [] else [Timeout_warning (fighters ?s ! turn ?s)]"
  define w5 where "w5 = w\<lparr>scripts := (scripts w)(h := ?s\<lparr>timer := 5, timeout_warning_given := True\<rparr>),
                   msgs := msgs w @ ?ms\<rparr>"
  have "ticks 6 tunr w h = ticks (Suc (Suc (Suc (Suc (Suc (Suc 0)))))) tunr w h"
    by (simp add: eval_nat_numeral)
  also have "\<dots> = ticks (Suc 0) tunr w5 h"
    unfolding w5_def using assms(1-3) by (rule ticks_past_five)
  also have "\<dots> = at_repeat tunr w5 h"
    by (rule ticks_one)
  also have "\<dots> = next_turn tunr (timed_out w5 h (timer (scripts w5 h) - interval (scripts w5 h))
              (timeout_warning_given (scripts w5 h)) []) h"
    using assms by (intro at_repeat_timeout) (simp_all add: w5_def)
  also have "timed_out w5 h (timer (scripts w5 h) - interval (scripts w5 h))
              (timeout_warning_given (scripts w5 h)) [] = timed_out w h 0 True ?ms"
    using assms(3) by (simp add: w5_def timed_out_def Let_def spent_def)
  finally show ?thesis .
qed

lemma timed_out_fields:
  "scripts (timed_out w h t warned ms) h = (scripts w h)\<lparr>timer := t, timeout_warning_given := warned\<rparr>"
  "chars (timed_out w h t warned ms) =
     (chars w)(fighters (scripts w h) ! turn (scripts w h) :=
        (chars w (fighters (scripts w h) ! turn (scripts w h)))
          \<lparr>combat_lastaction := Some ''disengage'', combat_actionsleft := Some 0\<rparr>)"
  by (simp_all add: timed_out_def Let_def spent_def)

lemma spend_action_no_handler:
  assumes "combat_turnhandler (chars w c) = None"
  shows "(\<exists>e. fst (spend_action tunr w c amt lbl) = Inl e) \<and>
         (amt = All \<or> combat_actionsleft (chars w c) \<noteq> None \<longrightarrow>
            fst (spend_action tunr w c amt lbl) = Inl AttributeError) \<and>
         (amt \<noteq> All \<and> combat_actionsleft (chars w c) = None \<longrightarrow>
            fst (spend_action tunr w c amt lbl) = Inl TypeError) \<and>
         scripts (snd (spend_action tunr w c amt lbl)) = scripts w \<and>
         rooms (snd (spend_action tunr w c amt lbl)) = rooms w \<and>
         msgs (snd (spend_action tunr w c amt lbl)) = msgs w"
proof -
  have w1: "combat_turnhandler (chars (set_lastaction w c lbl) c) = None"
    "combat_actionsleft (chars (set_lastaction w c lbl) c) = combat_actionsleft (chars w c)"
    "scripts (set_lastaction w c lbl) = scripts w"
    "rooms (set_lastaction w c lbl) = rooms w"
    "msgs (set_lastaction w c lbl) = msgs w"
    using assms by (simp_all add: set_lastaction_def upd_char_def split: option.splits)
  show ?thesis
  proof (cases amt)
    case All
    then show ?thesis
      using w1 by (simp add: spend_action_def Let_def upd_char_def)
  next
    case (Amt a)
    then show ?thesis
      using w1 by (cases "combat_actionsleft (chars w c)") (simp_all add: spend_action_def Let_def upd_char_def)
  qed
qed

lemma apply_damage_health:
  "apply_damage w defender damage = (Inr u, w') \<Longrightarrow>
   \<exists>n. hp (chars w' defender) = Some n \<and> 0 \<le> n"
  by (auto simp: apply_damage_def upd_char_def split: option.splits)

lemma room_fighters_positive:
  assumes "\<forall>thing \<in> set (contents (rooms w r)). \<forall>n. hp (chars w thing) = Some n \<longrightarrow> 0 \<le> n"
  shows "room_fighters w r = filter (positive_health w) (contents (rooms w r))"
  unfolding room_fighters_def
proof (rule filter_cong)
  fix x assume "x \<in> set (contents (rooms w r))"
  with assms have "\<forall>n. hp (chars w x) = Some n \<longrightarrow> 0 \<le> n" by blast
  then show "truthy (hp (chars w x)) = positive_health w x"
    by (cases "hp (chars w x)") (auto simp: truthy_def positive_health_def)
qed simp

section \<open>The claims\<close>

text \<open>
  C6. Whenever the end-of-turn evaluation \<open>next_turn\<close> runs and every roster member's
  last action is \<open>disengage\<close>, the handler announces the end of combat and stops; the
  stop clears the three combat fields of every roster member and removes the room's
  reference to the handler.
\<close>

theorem all_disengaged_ends_with_cleanup:
  assumes "\<forall>f \<in> set (fighters (scripts w h)). combat_lastaction (chars w f) = Some ''disengage''"
  shows "fst (next_turn tunr w h) = Inr () \<and>
         msgs (snd (next_turn tunr w h)) = msgs w @ [All_disengaged (obj (scripts w h))] \<and>
         \<not> is_active (scripts (snd (next_turn tunr w h)) h) \<and>
         (\<forall>f \<in> set (fighters (scripts w h)).
            combat_actionsleft (chars (snd (next_turn tunr w h)) f) = None \<and>
            combat_lastaction (chars (snd (next_turn tunr w h)) f) = None \<and>
            combat_turnhandler (chars (snd (next_turn tunr w h)) f) = None) \<and>
         room_combat_turnhandler (rooms (snd (next_turn tunr w h)) (obj (scripts w h))) = None"
proof -
  have "disengage_check w (fighters (scripts w h))"
    using assms by (simp add: disengage_check_iff)
  then have "next_turn tunr w h = (Inr (), stop (send w (All_disengaged (obj (scripts w h)))) h)"
    by (simp add: next_turn_def Let_def)
  then show ?thesis
    by (simp add: stop_fields send_def cleanup_attrs_def)
qed


text \<open>The fight of two in which both fighters spend all actions with \<open>disengage\<close>: the
  theorem at the second evaluation, and the run from creation to the end.\<close>

theorem all_disengaged_ends_with_cleanup_witness:
  "list_all (\<lambda>f. combat_lastaction (chars duel_last_check f) = Some ''disengage'')
     (fighters (scripts duel_last_check 5)) \<and>
   fst (next_turn 0 duel_last_check 5) = Inr () \<and>
   \<not> is_active (scripts (snd (next_turn 0 duel_last_check 5)) 5) \<and>
   list_all (\<lambda>f. combat_actionsleft (chars (snd (next_turn 0 duel_last_check 5)) f) = None \<and>
                combat_lastaction (chars (snd (next_turn 0 duel_last_check 5)) f) = None \<and>
                combat_turnhandler (chars (snd (next_turn 0 duel_last_check 5)) f) = None)
     (fighters (scripts duel_last_check 5)) \<and>
   fighters (scripts duel_start 5) = [1, 2] \<and>
   is_active (scripts duel_mid 5) \<and>
   fst (spend_action 0 duel_mid 2 All (Some ''disengage'')) = Inr () \<and>
   \<not> is_active (scripts duel_over 5) \<and>
   map (\<lambda>c. combat_actionsleft (chars duel_over c)) [1, 2] = [None, None] \<and>
   map (\<lambda>c. combat_lastaction (chars duel_over c)) [1, 2] = [None, None] \<and>
   map (\<lambda>c. combat_turnhandler (chars duel_over c)) [1, 2] = [None, None] \<and>
   room_combat_turnhandler (rooms duel_over 0) = None \<and>
   msgs duel_over = msgs duel_mid @ [All_disengaged 0]"
proof -
  have h: "\<forall>f \<in> set (fighters (scripts duel_last_check 5)).
             combat_lastaction (chars duel_last_check f) = Some ''disengage''"
    by code_simp
  have run: "fighters (scripts duel_start 5) = [1, 2] \<and>
     is_active (scripts duel_mid 5) \<and>
     fst (spend_action 0 duel_mid 2 All (Some ''disengage'')) = Inr () \<and>
     \<not> is_active (scripts duel_over 5) \<and>
     map (\<lambda>c. combat_actionsleft (chars duel_over c)) [1, 2] = [None, None] \<and>
     map (\<lambda>c. combat_lastaction (chars duel_over c)) [1, 2] = [None, None] \<and>
     map (\<lambda>c. combat_turnhandler (chars duel_over c)) [1, 2] = [None, None] \<and>
     room_combat_turnhandler (rooms duel_over 0) = None \<and>
     msgs duel_over = msgs duel_mid @ [All_disengaged 0]"
    by code_simp
  from all_disengaged_ends_with_cleanup [OF h, of 0] h run show ?thesis
    unfolding list_all_iff by blast
qed

text \<open>
  C1, as amended. The evaluation tests all-disengaged first. When some roster member's
  last action is not \<open>disengage\<close> and exactly roster size - 1 roster members have
  health 0, \<open>next_turn\<close> announces the one roster member whose health is not 0 and
  stops the script.
\<close>

theorem last_standing_ends:
  assumes "\<exists>f \<in> set (fighters (scripts w h)). combat_lastaction (chars w f) \<noteq> Some ''disengage''"
    and "length (filter (\<lambda>f. hp (chars w f) = Some 0) (fighters (scripts w h))) + 1 =
         length (fighters (scripts w h))"
  shows "\<exists>l. filter (\<lambda>f. hp (chars w f) \<noteq> Some 0) (fighters (scripts w h)) = [l] \<and>
             fst (next_turn tunr w h) = Inr () \<and>
             msgs (snd (next_turn tunr w h)) = msgs w @ [Only_remains (obj (scripts w h)) l] \<and>
             \<not> is_active (scripts (snd (next_turn tunr w h)) h)"
proof -
  from assms(2) obtain l where l: "filter (\<lambda>f. hp (chars w f) \<noteq> Some 0) (fighters (scripts w h)) = [l]"
    using sole_survivor_exists by blast
  have nd: "\<not> disengage_check w (fighters (scripts w h))"
    using assms(1) by (simp add: disengage_check_iff)
  have cnt: "defeated_characters w (fighters (scripts w h)) = int (length (fighters (scripts w h))) - 1"
    using assms(2) by (simp add: defeated_characters_count)
  have "next_turn tunr w h = (Inr (), stop (send w (Only_remains (obj (scripts w h)) l)) h)"
    using nd cnt last_standing_sole [OF l] by (rule next_turn_last)
  then have "fst (next_turn tunr w h) = Inr () \<and>
             msgs (snd (next_turn tunr w h)) = msgs w @ [Only_remains (obj (scripts w h)) l] \<and>
             \<not> is_active (scripts (snd (next_turn tunr w h)) h)"
    by (simp add: stop_fields send_def)
  with l show ?thesis by blast
qed

text \<open>The fight of three in which two fighters reach 0 health: the theorem at the
  evaluation, and the run that leads to it.\<close>

theorem last_standing_ends_witness:
  "list_ex (\<lambda>f. combat_lastaction (chars trio_last_check f) \<noteq> Some ''disengage'')
     (fighters (scripts trio_last_check 5)) \<and>
   length (filter (\<lambda>f. hp (chars trio_last_check f) = Some 0) (fighters (scripts trio_last_check 5))) + 1 =
     length (fighters (scripts trio_last_check 5)) \<and>
   fst (next_turn 0 trio_last_check 5) = Inr () \<and>
   msgs (snd (next_turn 0 trio_last_check 5)) = msgs trio_last_check @ [Only_remains 0 1] \<and>
   \<not> is_active (scripts (snd (next_turn 0 trio_last_check 5)) 5) \<and>
   fighters (scripts trio_start 5) = [1, 2, 3] \<and>
   map (\<lambda>c. hp (chars trio_two_down c)) [1, 2, 3] = [Some 100, Some 0, Some 0] \<and>
   is_active (scripts trio_two_down 5) \<and>
   fst (spend_action 0 trio_two_down 1 (Amt 1) (Some ''attack'')) = Inr () \<and>
   msgs trio_over = msgs trio_two_down @ [Only_remains 0 1] \<and>
   \<not> is_active (scripts trio_over 5)"
proof -
  have h1: "\<exists>f \<in> set (fighters (scripts trio_last_check 5)).
              combat_lastaction (chars trio_last_check f) \<noteq> Some ''disengage''"
    by code_simp
  have h2: "length (filter (\<lambda>f. hp (chars trio_last_check f) = Some 0)
                      (fighters (scripts trio_last_check 5))) + 1 =
            length (fighters (scripts trio_last_check 5))"
    by code_simp
  have sole: "filter (\<lambda>f. hp (chars trio_last_check f) \<noteq> Some 0)
                (fighters (scripts trio_last_check 5)) = [1]"
    by code_simp
  have room: "obj (scripts trio_last_check 5) = 0"
    by code_simp
  have run: "fighters (scripts trio_start 5) = [1, 2, 3] \<and>
     map (\<lambda>c. hp (chars trio_two_down c)) [1, 2, 3] = [Some 100, Some 0, Some 0] \<and>
     is_active (scripts trio_two_down 5) \<and>
     fst (spend_action 0 trio_two_down 1 (Amt 1) (Some ''attack'')) = Inr () \<and>
     msgs trio_over = msgs trio_two_down @ [Only_remains 0 1] \<and>
     \<not> is_active (scripts trio_over 5)"
    by code_simp
  from last_standing_ends [OF h1 h2, of 0] sole room h1 h2 run show ?thesis
    unfolding list_ex_iff by auto
qed

text \<open>C1 as stated fails when every last action is \<open>disengage\<close>: with one of two
  fighters at 0 health the handler stops with the all-disengaged announcement and never
  names the survivor.\<close>

theorem last_standing_counterexample:
  "length (filter (\<lambda>f. hp (chars duel_down_check f) = Some 0) (fighters (scripts duel_down_check 5))) + 1 =
     length (fighters (scripts duel_down_check 5)) \<and>
   filter (\<lambda>f. hp (chars duel_down_check f) \<noteq> Some 0) (fighters (scripts duel_down_check 5)) = [2] \<and>
   fst (next_turn 0 duel_down_check 5) = Inr () \<and>
   msgs (snd (next_turn 0 duel_down_check 5)) = msgs duel_down_check @ [All_disengaged 0] \<and>
   Only_remains 0 2 \<notin> set (msgs (snd (next_turn 0 duel_down_check 5)))"
  by code_simp

text \<open>
  C2. The class docstring (lines 396-397) lets a fight persist until ``all remaining
  participants'' disengage, which is the claim: a defeated fighter does not count. The
  loop at lines 499-501 reads the last action of every roster member and never the
  health. At the evaluation below the two fighters with health left, 1 and 2, have both
  disengaged and the defeated fighter 3 has not: the code does not end the fight, it
  rotates to fighter 3 and the script keeps running.
\<close>

theorem defeated_fighter_blocks_disengage:
  "fighters (scripts trio_mid_check 5) = [1, 2, 3] \<and>
   map (\<lambda>c. hp (chars trio_mid_check c)) [1, 2, 3] = [Some 100, Some 100, Some 0] \<and>
   map (\<lambda>c. combat_lastaction (chars trio_mid_check c)) [1, 2, 3] =
     [Some ''disengage'', Some ''disengage'', Some ''null''] \<and>
   fst (next_turn 0 trio_mid_check 5) = Inr () \<and>
   is_active (scripts (snd (next_turn 0 trio_mid_check 5)) 5) \<and>
   turn (scripts (snd (next_turn 0 trio_mid_check 5)) 5) = 2 \<and>
   msgs (snd (next_turn 0 trio_mid_check 5)) =
     msgs trio_mid_check @ [Turn_change 0 2 3, Your_turn 3 0] \<and>
   spend_action 0 trio_mid 2 All (Some ''disengage'') = next_turn 0 trio_mid_check 5"
proof -
  have "combat_turnhandler (chars trio_mid 2) = Some 5"
    by code_simp
  then have "spend_action 0 trio_mid 2 All (Some ''disengage'') = next_turn 0 trio_mid_check 5"
    by (simp add: spend_action_def set_lastaction_def upd_char_def turn_end_check_def truthy_def
        trio_mid_check_def spent_def)
  moreover have "fighters (scripts trio_mid_check 5) = [1, 2, 3] \<and>
   map (\<lambda>c. hp (chars trio_mid_check c)) [1, 2, 3] = [Some 100, Some 100, Some 0] \<and>
   map (\<lambda>c. combat_lastaction (chars trio_mid_check c)) [1, 2, 3] =
     [Some ''disengage'', Some ''disengage'', Some ''null''] \<and>
   fst (next_turn 0 trio_mid_check 5) = Inr () \<and>
   is_active (scripts (snd (next_turn 0 trio_mid_check 5)) 5) \<and>
   turn (scripts (snd (next_turn 0 trio_mid_check 5)) 5) = 2 \<and>
   msgs (snd (next_turn 0 trio_mid_check 5)) =
     msgs trio_mid_check @ [Turn_change 0 2 3, Your_turn 3 0]"
    by code_simp
  ultimately show ?thesis by blast
qed

text \<open>What the code does on every store: a roster member at 0 health whose last action is
  not \<open>disengage\<close> keeps the all-disengaged ending from firing, and the evaluation never
  shortens the roster.\<close>

theorem defeated_not_skipped:
  assumes "f \<in> set (fighters (scripts w h))"
    and "hp (chars w f) = Some 0"
    and "combat_lastaction (chars w f) \<noteq> Some ''disengage''"
  shows "fighters (scripts (snd (next_turn tunr w h)) h) = fighters (scripts w h) \<and>
         \<not> disengage_check w (fighters (scripts w h)) \<and>
         (\<forall>r. All_disengaged r \<in> set (msgs (snd (next_turn tunr w h))) \<longrightarrow>
              All_disengaged r \<in> set (msgs w)) \<and>
         next_turn tunr w h \<noteq> (Inr (), stop (send w (All_disengaged (obj (scripts w h)))) h)"
proof -
  have nd: "\<not> disengage_check w (fighters (scripts w h))"
    using assms by (auto simp: disengage_check_iff)
  have nomsg: "\<forall>r. All_disengaged r \<in> set (msgs (snd (next_turn tunr w h))) \<longrightarrow>
                  All_disengaged r \<in> set (msgs w)"
    using next_turn_no_disengage_msg [OF nd] by blast
  have "msgs (snd (next_turn tunr w h)) \<noteq> msgs w @ [All_disengaged (obj (scripts w h))]"
    using nd
    by (simp add: next_turn_def Let_def stop_fields send_def start_turn_def upd_script_def upd_char_def
      split: option.splits)
  then have "next_turn tunr w h \<noteq> (Inr (), stop (send w (All_disengaged (obj (scripts w h)))) h)"
    by (auto simp: stop_fields send_def)
  with nd nomsg next_turn_keeps_fighters show ?thesis by blast
qed

theorem defeated_not_skipped_witness:
  "3 \<in> set (fighters (scripts trio_mid_check 5)) \<and>
   hp (chars trio_mid_check 3) = Some 0 \<and>
   combat_lastaction (chars trio_mid_check 3) \<noteq> Some ''disengage'' \<and>
   fighters (scripts (snd (next_turn 0 trio_mid_check 5)) 5) = fighters (scripts trio_mid_check 5) \<and>
   \<not> disengage_check trio_mid_check (fighters (scripts trio_mid_check 5)) \<and>
   next_turn 0 trio_mid_check 5 \<noteq>
     (Inr (), stop (send trio_mid_check (All_disengaged (obj (scripts trio_mid_check 5)))) 5)"
proof -
  have h1: "3 \<in> set (fighters (scripts trio_mid_check 5))" by code_simp
  have h2: "hp (chars trio_mid_check 3) = Some 0" by code_simp
  have h3: "combat_lastaction (chars trio_mid_check 3) \<noteq> Some ''disengage''" by code_simp
  from defeated_not_skipped [OF h1 h2 h3, of 0] h1 h2 h3 show ?thesis by blast
qed

text \<open>
  C9. Health is never negative: every writer of \<open>hp\<close> in the module keeps it at 0 or
  above (\<open>apply_damage\<close> floors at 0, creation and resting set the maximum, healing adds).
  For every room of such candidates with at least two of positive health,
  \<open>at_script_creation\<close> returns normally; the roster is a permutation of exactly the
  candidates of positive health, in descending order of the rolls, candidates with equal
  rolls in the order of the room's contents, and the cursor is 0. The rolls are any
  integers: that they are drawn from 1..1000 plays no part.
\<close>

theorem initiative_order:
  assumes "\<forall>thing \<in> set (contents (rooms w r)). \<forall>n. hp (chars w thing) = Some n \<longrightarrow> 0 \<le> n"
    and "2 \<le> length (filter (positive_health w) (contents (rooms w r)))"
  shows "fst (at_script_creation rnd w h r) = Inr () \<and>
         mset (fighters (scripts (snd (at_script_creation rnd w h r)) h)) =
           mset (filter (positive_health w) (contents (rooms w r))) \<and>
         fighters (scripts (snd (at_script_creation rnd w h r)) h) =
           map snd (ordered_by_roll rnd (filter (positive_health w) (contents (rooms w r)))) \<and>
         mset (ordered_by_roll rnd (filter (positive_health w) (contents (rooms w r)))) =
           mset (zip (map rnd [0..<length (filter (positive_health w) (contents (rooms w r)))])
                   (filter (positive_health w) (contents (rooms w r)))) \<and>
         sorted_wrt (\<lambda>a b. fst b \<le> fst a)
           (ordered_by_roll rnd (filter (positive_health w) (contents (rooms w r)))) \<and>
         (\<forall>v. filter (\<lambda>p. fst p = v)
                (ordered_by_roll rnd (filter (positive_health w) (contents (rooms w r)))) =
              filter (\<lambda>p. fst p = v)
                (zip (map rnd [0..<length (filter (positive_health w) (contents (rooms w r)))])
                   (filter (positive_health w) (contents (rooms w r))))) \<and>
         turn (scripts (snd (at_script_creation rnd w h r)) h) = 0"
proof -
  let ?el = "filter (positive_health w) (contents (rooms w r))"
  have rf: "room_fighters w r = ?el"
    using assms(1) by (rule room_fighters_positive)
  with assms(2) have ne: "room_fighters w r \<noteq> []"
    by auto
  from at_script_creation_ok [OF ne, of rnd h]
  have ok: "fst (at_script_creation rnd w h r) = Inr ()"
    and fs: "fighters (scripts (snd (at_script_creation rnd w h r)) h) = map snd (ordered_by_roll rnd ?el)"
    and t: "turn (scripts (snd (at_script_creation rnd w h r)) h) = 0"
    by (simp_all add: rf)
  have m: "mset (fighters (scripts (snd (at_script_creation rnd w h r)) h)) = mset ?el"
    by (simp only: fs ordered_by_roll_members)
  from ok fs m t ordered_by_roll_mset [of rnd ?el] ordered_by_roll_sorted [of rnd ?el]
    ordered_by_roll_stable [of _ rnd ?el]
  show ?thesis by blast
qed

text \<open>Four fighters and two ties: the roster is \<open>[2, 4, 1, 3]\<close>.\<close>

theorem initiative_order_witness:
  "list_all (\<lambda>thing. case hp (chars crowd thing) of None \<Rightarrow> True | Some n \<Rightarrow> 0 \<le> n)
     (contents (rooms crowd 0)) \<and>
   2 \<le> length (filter (positive_health crowd) (contents (rooms crowd 0))) \<and>
   filter (positive_health crowd) (contents (rooms crowd 0)) = [1, 2, 3, 4] \<and>
   map crowd_rolls [0..<4] = [300, 700, 300, 700] \<and>
   fst (at_script_creation crowd_rolls crowd 5 0) = Inr () \<and>
   mset (fighters (scripts (snd (at_script_creation crowd_rolls crowd 5 0)) 5)) =
     mset (filter (positive_health crowd) (contents (rooms crowd 0))) \<and>
   sorted_wrt (\<lambda>a b. fst b \<le> fst a)
     (ordered_by_roll crowd_rolls (filter (positive_health crowd) (contents (rooms crowd 0)))) \<and>
   ordered_by_roll crowd_rolls [1, 2, 3, 4] = [(700, 2), (700, 4), (300, 1), (300, 3)] \<and>
   fighters (scripts (snd (at_script_creation crowd_rolls crowd 5 0)) 5) = [2, 4, 1, 3] \<and>
   turn (scripts (snd (at_script_creation crowd_rolls crowd 5 0)) 5) = 0"
proof -
  have nn: "list_all (\<lambda>thing. case hp (chars crowd thing) of None \<Rightarrow> True | Some n \<Rightarrow> 0 \<le> n)
     (contents (rooms crowd 0))"
    by code_simp
  then have h1: "\<forall>thing \<in> set (contents (rooms crowd 0)). \<forall>n. hp (chars crowd thing) = Some n \<longrightarrow> 0 \<le> n"
    by (auto simp: list_all_iff)
  have h2: "2 \<le> length (filter (positive_health crowd) (contents (rooms crowd 0)))"
    by code_simp
  have run: "filter (positive_health crowd) (contents (rooms crowd 0)) = [1, 2, 3, 4] \<and>
     map crowd_rolls [0..<4] = [300, 700, 300, 700] \<and>
     ordered_by_roll crowd_rolls [1, 2, 3, 4] = [(700, 2), (700, 4), (300, 1), (300, 3)] \<and>
     fighters (scripts (snd (at_script_creation crowd_rolls crowd 5 0)) 5) = [2, 4, 1, 3]"
    by code_simp
  from initiative_order [OF h1 h2, of crowd_rolls 5] nn h2 run show ?thesis
    by blast
qed

text \<open>The test of the code is Python truth (line 411), which differs from positive health
  only on a negative value, one that no code of the module writes.\<close>

lemma negative_health_is_enrolled:
  "contents (rooms wounded 0) = [1, 2, 3] \<and>
   filter (\<lambda>thing. case hp (chars wounded thing) of None \<Rightarrow> False | Some n \<Rightarrow> 0 < n)
     (contents (rooms wounded 0)) = [1, 2] \<and>
   hp (chars wounded 3) = Some (- 5) \<and>
   fst (at_script_creation (\<lambda>k. 500 - int k) wounded 5 0) = Inr () \<and>
   fighters (scripts (snd (at_script_creation (\<lambda>k. 500 - int k) wounded 5 0)) 5) = [1, 2, 3]"
  by code_simp

text \<open>
  C3, as amended. In a fight whose cursor is valid, \<open>join_fight\<close> inserts the character
  at the cursor's index, which is the slot directly before the fighter whose turn it is,
  and adds one to the cursor, so the cursor still points at that fighter. The character
  gets 0 actions, last action \<open>null\<close> and the reference to the script, as at creation;
  the countdown and the warning flag are not touched.
\<close>

theorem join_fight_inserts_at_cursor:
  assumes "turn (scripts w h) < length (fighters (scripts w h))"
  shows "fighters (scripts (join_fight w h p) h) =
           take (turn (scripts w h)) (fighters (scripts w h)) @ p #
           drop (turn (scripts w h)) (fighters (scripts w h)) \<and>
         turn (scripts (join_fight w h p) h) = turn (scripts w h) + 1 \<and>
         fighters (scripts (join_fight w h p) h) ! turn (scripts (join_fight w h p) h) =
           fighters (scripts w h) ! turn (scripts w h) \<and>
         fighters (scripts (join_fight w h p) h) ! (turn (scripts (join_fight w h p) h) - 1) = p \<and>
         combat_actionsleft (chars (join_fight w h p) p) = Some 0 \<and>
         combat_lastaction (chars (join_fight w h p) p) = Some ''null'' \<and>
         combat_turnhandler (chars (join_fight w h p) p) = Some h \<and>
         hp (chars (join_fight w h p) p) = hp (chars w p) \<and>
         timer (scripts (join_fight w h p) h) = timer (scripts w h) \<and>
         timeout_warning_given (scripts (join_fight w h p) h) = timeout_warning_given (scripts w h) \<and>
         is_active (scripts (join_fight w h p) h) = is_active (scripts w h) \<and>
         msgs (join_fight w h p) = msgs w"
proof -
  let ?fs = "fighters (scripts w h)"
  let ?t = "turn (scripts w h)"
  have sc: "scripts (join_fight w h p) h = (scripts w h)\<lparr>fighters := take ?t ?fs @ p # drop ?t ?fs, turn := ?t + 1\<rparr>"
    by (simp add: join_fight_def Let_def upd_script_def initialize_fields list_insert_def)
  have len: "length (take ?t ?fs) = ?t"
    using assms by simp
  have cur: "(take ?t ?fs @ p # drop ?t ?fs) ! (?t + 1) = ?fs ! ?t"
    using assms len by (simp add: nth_append)
  have new: "(take ?t ?fs @ p # drop ?t ?fs) ! ?t = p"
    using len by (simp add: nth_append)
  have ch: "chars (join_fight w h p) p =
      (chars w p)\<lparr>combat_actionsleft := Some 0, combat_turnhandler := Some h,
                   combat_lastaction := Some ''null''\<rparr>"
    by (simp add: join_fight_def Let_def upd_script_def initialize_fields)
  have ms: "msgs (join_fight w h p) = msgs w"
    by (simp add: join_fight_def Let_def upd_script_def initialize_fields)
  show ?thesis
    using cur new by (simp add: sc ch ms)
qed

text \<open>Fighter 3 joins the fight of two during the turn of fighter 1.\<close>

theorem join_fight_inserts_at_cursor_witness:
  "turn (scripts duel_start 5) < length (fighters (scripts duel_start 5)) \<and>
   fighters (scripts duel_start 5) ! turn (scripts duel_start 5) = 1 \<and>
   fighters (scripts (join_fight duel_start 5 3) 5) ! turn (scripts (join_fight duel_start 5 3) 5) =
     fighters (scripts duel_start 5) ! turn (scripts duel_start 5) \<and>
   combat_actionsleft (chars (join_fight duel_start 5 3) 3) = Some 0 \<and>
   combat_lastaction (chars (join_fight duel_start 5 3) 3) = Some ''null'' \<and>
   combat_turnhandler (chars (join_fight duel_start 5 3) 3) = Some 5 \<and>
   timer (scripts (join_fight duel_start 5 3) 5) = timer (scripts duel_start 5) \<and>
   length (fighters (scripts (join_fight duel_start 5 3) 5)) = 3"
proof -
  have h: "turn (scripts duel_start 5) < length (fighters (scripts duel_start 5))"
    by code_simp
  have run: "fighters (scripts duel_start 5) ! turn (scripts duel_start 5) = 1 \<and>
     length (fighters (scripts (join_fight duel_start 5 3) 5)) = 3"
    by code_simp
  from join_fight_inserts_at_cursor [OF h, of 3] h run show ?thesis
    by blast
qed

text \<open>C3 as stated fails: after the join the roster is \<open>[3, 1, 2]\<close> with the cursor on
  fighter 1; the slot after the cursor holds fighter 2, not the newcomer.\<close>

theorem join_fight_counterexample:
  "fighters (scripts duel_start 5) = [1, 2] \<and>
   turn (scripts duel_start 5) = 0 \<and>
   fighters (scripts (join_fight duel_start 5 3) 5) = [3, 1, 2] \<and>
   turn (scripts (join_fight duel_start 5 3) 5) = 1 \<and>
   fighters (scripts (join_fight duel_start 5 3) 5) ! (turn (scripts (join_fight duel_start 5 3) 5) + 1) \<noteq> 3"
  by code_simp

text \<open>
  C4, as amended. Whenever the evaluation rotates the turn (some last action is not
  \<open>disengage\<close>, the defeated are not all but one, the cursor is valid), the countdown is
  set to \<open>TURN_TIMEOUT\<close> plus the time until the script's next repeat and the warning flag
  is cleared, the cursor moves to the next roster slot and that fighter's actions are
  refilled. The new countdown equals the one creation sets, \<open>TURN_TIMEOUT\<close>, exactly when
  the time until the next repeat is 0.
\<close>

theorem rotation_resets_countdown:
  assumes "\<exists>f \<in> set (fighters (scripts w h)). combat_lastaction (chars w f) \<noteq> Some ''disengage''"
    and "length (filter (\<lambda>f. hp (chars w f) = Some 0) (fighters (scripts w h))) + 1 \<noteq>
         length (fighters (scripts w h))"
    and "turn (scripts w h) < length (fighters (scripts w h))"
  shows "timer (scripts (snd (next_turn tunr w h)) h) = TURN_TIMEOUT + tunr \<and>
         \<not> timeout_warning_given (scripts (snd (next_turn tunr w h)) h) \<and>
         turn (scripts (snd (next_turn tunr w h)) h) =
           (turn (scripts w h) + 1) mod length (fighters (scripts w h)) \<and>
         is_active (scripts (snd (next_turn tunr w h)) h) = is_active (scripts w h) \<and>
         combat_actionsleft
           (chars (snd (next_turn tunr w h))
              (fighters (scripts w h) ! ((turn (scripts w h) + 1) mod length (fighters (scripts w h))))) =
           Some ACTIONS_PER_TURN \<and>
         (timer (scripts (snd (next_turn tunr w h)) h) = TURN_TIMEOUT \<longleftrightarrow> tunr = 0) \<and>
         (room_fighters v r \<noteq> [] \<longrightarrow>
            timer (scripts (snd (at_script_creation rnd v h r)) h) = TURN_TIMEOUT \<and>
            \<not> timeout_warning_given (scripts (snd (at_script_creation rnd v h r)) h))"
proof -
  have nd: "\<not> disengage_check w (fighters (scripts w h))"
    using assms(1) by (simp add: disengage_check_iff)
  have nl: "defeated_characters w (fighters (scripts w h)) \<noteq> int (length (fighters (scripts w h))) - 1"
    using assms(2) by (rule not_last_standing)
  have nt: "next_turn tunr w h =
         start_turn (cycled tunr w h)
           (fighters (scripts w h) ! ((turn (scripts w h) + 1) mod length (fighters (scripts w h))))"
    using nd nl assms(3) by (rule next_turn_cycle)
  have rot: "timer (scripts (snd (next_turn tunr w h)) h) = TURN_TIMEOUT + tunr \<and>
         \<not> timeout_warning_given (scripts (snd (next_turn tunr w h)) h) \<and>
         turn (scripts (snd (next_turn tunr w h)) h) =
           (turn (scripts w h) + 1) mod length (fighters (scripts w h)) \<and>
         is_active (scripts (snd (next_turn tunr w h)) h) = is_active (scripts w h) \<and>
         combat_actionsleft
           (chars (snd (next_turn tunr w h))
              (fighters (scripts w h) ! ((turn (scripts w h) + 1) mod length (fighters (scripts w h))))) =
           Some ACTIONS_PER_TURN"
    by (simp add: nt start_turn_fields cycled_fields)
  then have same: "timer (scripts (snd (next_turn tunr w h)) h) = TURN_TIMEOUT \<longleftrightarrow> tunr = 0"
    by simp
  have cr: "room_fighters v r \<noteq> [] \<longrightarrow>
            timer (scripts (snd (at_script_creation rnd v h r)) h) = TURN_TIMEOUT \<and>
            \<not> timeout_warning_given (scripts (snd (at_script_creation rnd v h r)) h)"
    using at_script_creation_ok [of v r rnd h] by simp
  from rot same cr show ?thesis by blast
qed

text \<open>Fighter 1 of the fight of two passes 3 seconds before the next repeat.\<close>

theorem rotation_resets_countdown_witness:
  "list_ex (\<lambda>f. combat_lastaction (chars (spent duel_start 1 (Some ''pass'') 0) f) \<noteq> Some ''disengage'')
     (fighters (scripts (spent duel_start 1 (Some ''pass'') 0) 5)) \<and>
   length (filter (\<lambda>f. hp (chars (spent duel_start 1 (Some ''pass'') 0) f) = Some 0)
             (fighters (scripts (spent duel_start 1 (Some ''pass'') 0) 5))) + 1 \<noteq>
     length (fighters (scripts (spent duel_start 1 (Some ''pass'') 0) 5)) \<and>
   turn (scripts (spent duel_start 1 (Some ''pass'') 0) 5) <
     length (fighters (scripts (spent duel_start 1 (Some ''pass'') 0) 5)) \<and>
   timer (scripts (snd (next_turn 3 (spent duel_start 1 (Some ''pass'') 0) 5)) 5) = TURN_TIMEOUT + 3 \<and>
   \<not> timeout_warning_given (scripts (snd (next_turn 3 (spent duel_start 1 (Some ''pass'') 0) 5)) 5) \<and>
   room_fighters (arena [1, 2] (\<lambda>c. Some 100)) 0 \<noteq> [] \<and>
   timer (scripts duel_start 5) = TURN_TIMEOUT"
proof -
  let ?w = "spent duel_start 1 (Some ''pass'') 0"
  have h1: "\<exists>f \<in> set (fighters (scripts ?w 5)). combat_lastaction (chars ?w f) \<noteq> Some ''disengage''"
    by code_simp
  have h2: "length (filter (\<lambda>f. hp (chars ?w f) = Some 0) (fighters (scripts ?w 5))) + 1 \<noteq>
            length (fighters (scripts ?w 5))"
    by code_simp
  have h3: "turn (scripts ?w 5) < length (fighters (scripts ?w 5))"
    by code_simp
  have h4: "room_fighters (arena [1, 2] (\<lambda>c. Some 100)) 0 \<noteq> []"
    by code_simp
  from rotation_resets_countdown [OF h1 h2 h3, of 3 "arena [1, 2] (\<lambda>c. Some 100)" 0 "\<lambda>k. 500 - int k"]
    h1 h2 h3 h4
  show ?thesis
    unfolding list_ex_iff duel_start_def by blast
qed

text \<open>C4 as stated fails: passing 3 seconds before the next repeat rotates the turn and
  leaves the countdown at 33, not at 30.\<close>

theorem rotation_countdown_counterexample:
  "turn (scripts duel_start 5) = 0 \<and>
   timer (scripts duel_start 5) = 30 \<and>
   fst (spend_action 3 duel_start 1 All (Some ''pass'')) = Inr () \<and>
   turn (scripts (snd (spend_action 3 duel_start 1 All (Some ''pass''))) 5) = 1 \<and>
   timer (scripts (snd (spend_action 3 duel_start 1 All (Some ''pass''))) 5) = 33 \<and>
   timer (scripts (snd (spend_action 3 duel_start 1 All (Some ''pass''))) 5) \<noteq> TURN_TIMEOUT"
  by code_simp

text \<open>
  C7. For a character in combat, \<open>spend_action\<close> sets the last action to the label
  when one is given (a non-empty string), sets the actions left to 0 for \<open>All\<close> and,
  from \<open>k\<close> actions left, to \<open>max (k - a) 0\<close> for an amount \<open>a\<close>, and then runs
  \<open>turn_end_check\<close> on that store; whatever the check does, the character's actions
  left are never negative afterwards.
\<close>

theorem spend_action_semantics:
  assumes "combat_turnhandler (chars w p) = Some h"
    and "amt = All \<or> combat_actionsleft (chars w p) = Some k"
  shows "spend_action tunr w p amt lbl =
           turn_end_check tunr
             (spent w p
                (case lbl of
                   None \<Rightarrow> combat_lastaction (chars w p)
                 | Some l \<Rightarrow> if l \<noteq> [] then Some l else combat_lastaction (chars w p))
                (case amt of All \<Rightarrow> 0 | Amt a \<Rightarrow> max (k - a) 0))
             h p \<and>
         (\<forall>n. combat_actionsleft (chars (snd (spend_action tunr w p amt lbl)) p) = Some n \<longrightarrow> 0 \<le> n)"
proof -
  let ?la = "case lbl of
                   None \<Rightarrow> combat_lastaction (chars w p)
                 | Some l \<Rightarrow> if l \<noteq> [] then Some l else combat_lastaction (chars w p)"
  let ?n = "case amt of All \<Rightarrow> 0 | Amt a \<Rightarrow> max (k - a) 0"
  have w1: "set_lastaction w p lbl = w\<lparr>chars := (chars w)(p := (chars w p)\<lparr>combat_lastaction := ?la\<rparr>)\<rparr>"
    by (cases lbl) (simp_all add: set_lastaction_def upd_char_def)
  have eq: "spend_action tunr w p amt lbl = turn_end_check tunr (spent w p ?la ?n) h p"
  proof (cases amt)
    case All
    then show ?thesis
      using assms(1) by (simp add: spend_action_def w1 upd_char_def spent_def)
  next
    case (Amt a)
    with assms(2) have k: "combat_actionsleft (chars w p) = Some k"
      by simp
    have "(if k - a < 0 then 0 else k - a) = max (k - a) 0"
      by simp
    then show ?thesis
      using assms(1) k Amt by (simp add: spend_action_def w1 upd_char_def spent_def)
  qed
  have "\<forall>n. combat_actionsleft (chars (spent w p ?la ?n) p) = Some n \<longrightarrow> 0 \<le> n"
    by (cases amt) (simp_all add: spent_def)
  then have "\<forall>n. combat_actionsleft (chars (snd (turn_end_check tunr (spent w p ?la ?n) h p)) p) = Some n \<longrightarrow> 0 \<le> n"
    by (rule turn_end_check_actionsleft)
  with eq show ?thesis by simp
qed

text \<open>Fighter 1 of the fight of two spends one action, seven actions, and all.\<close>

theorem spend_action_semantics_witness:
  "combat_turnhandler (chars duel_start 1) = Some 5 \<and>
   combat_actionsleft (chars duel_start 1) = Some 1 \<and>
   spend_action 0 duel_start 1 (Amt 1) (Some ''attack'') =
     turn_end_check 0 (spent duel_start 1 (Some ''attack'') 0) 5 1 \<and>
   combat_lastaction (chars (snd (spend_action 0 duel_start 1 (Amt 1) (Some ''attack''))) 1) =
     Some ''attack'' \<and>
   combat_actionsleft (chars (snd (spend_action 0 duel_start 1 (Amt 1) (Some ''attack''))) 1) = Some 0 \<and>
   combat_actionsleft (chars (snd (spend_action 0 duel_start 1 (Amt 7) None)) 1) = Some 0 \<and>
   combat_lastaction (chars (snd (spend_action 0 duel_start 1 (Amt 7) None)) 1) = Some ''null'' \<and>
   combat_actionsleft (chars (snd (spend_action 0 duel_start 1 All (Some ''pass''))) 1) = Some 0 \<and>
   turn (scripts (snd (spend_action 0 duel_start 1 (Amt 1) (Some ''attack''))) 5) = 1"
proof -
  have h1: "combat_turnhandler (chars duel_start 1) = Some 5"
    by code_simp
  have h2: "combat_actionsleft (chars duel_start 1) = Some 1"
    by code_simp
  from spend_action_semantics
         [where amt = "Amt 1" and tunr = 0 and lbl = "Some ''attack''", OF h1 disjI2 [OF h2]]
  have eq: "spend_action 0 duel_start 1 (Amt 1) (Some ''attack'') =
     turn_end_check 0 (spent duel_start 1 (Some ''attack'') 0) 5 1"
    by simp
  have run: "combat_lastaction (chars (snd (spend_action 0 duel_start 1 (Amt 1) (Some ''attack''))) 1) =
     Some ''attack'' \<and>
   combat_actionsleft (chars (snd (spend_action 0 duel_start 1 (Amt 1) (Some ''attack''))) 1) = Some 0 \<and>
   combat_actionsleft (chars (snd (spend_action 0 duel_start 1 (Amt 7) None)) 1) = Some 0 \<and>
   combat_lastaction (chars (snd (spend_action 0 duel_start 1 (Amt 7) None)) 1) = Some ''null'' \<and>
   combat_actionsleft (chars (snd (spend_action 0 duel_start 1 All (Some ''pass''))) 1) = Some 0 \<and>
   turn (scripts (snd (spend_action 0 duel_start 1 (Amt 1) (Some ''attack''))) 5) = 1"
    by code_simp
  from h1 h2 eq run show ?thesis by blast
qed

text \<open>
  C8, as amended. In a fight with a valid cursor whose current fighter refers to the
  script: a tick that brings the countdown to 0 or below announces the time-out, spends
  all actions of the current fighter with the label \<open>disengage\<close> and runs the end-of-turn
  evaluation in the same call. From a countdown of exactly \<open>TURN_TIMEOUT\<close> = 30, as
  creation leaves it, and interval 5, six ticks do exactly that (after one warning), and
  when the evaluation does not end the fight (another fighter has not disengaged, the
  defeated are not all but one) the current fighter's last action is \<open>disengage\<close> and the
  cursor has moved to the next slot.
\<close>

theorem timeout_forces_disengage:
  assumes "turn (scripts w h) < length (fighters (scripts w h))"
    and "combat_turnhandler (chars w (fighters (scripts w h) ! turn (scripts w h))) = Some h"
  shows "(timer (scripts w h) - interval (scripts w h) \<le> 0 \<longrightarrow>
            at_repeat tunr w h =
              next_turn tunr
                (timed_out w h (timer (scripts w h) - interval (scripts w h))
                   (timeout_warning_given (scripts w h)) []) h) \<and>
         (timer (scripts w h) = TURN_TIMEOUT \<and> interval (scripts w h) = 5 \<longrightarrow>
            ticks 6 tunr w h =
              next_turn tunr
                (timed_out w h 0 True
                   (if timeout_warning_given (scripts w h) then []
                    else [Timeout_warning (fighters (scripts w h) ! turn (scripts w h))])) h \<and>
            ((\<exists>f \<in> set (fighters (scripts w h)).
                 f \<noteq> fighters (scripts w h) ! turn (scripts w h) \<and>
                 combat_lastaction (chars w f) \<noteq> Some ''disengage'') \<and>
              length (filter (\<lambda>f. hp (chars w f) = Some 0) (fighters (scripts w h))) + 1 \<noteq>
                length (fighters (scripts w h)) \<longrightarrow>
              combat_lastaction
                (chars (snd (ticks 6 tunr w h)) (fighters (scripts w h) ! turn (scripts w h))) =
                Some ''disengage'' \<and>
              turn (scripts (snd (ticks 6 tunr w h)) h) =
                (turn (scripts w h) + 1) mod length (fighters (scripts w h)) \<and>
              is_active (scripts (snd (ticks 6 tunr w h)) h) = is_active (scripts w h)))"
proof (intro conjI impI)
  assume "timer (scripts w h) - interval (scripts w h) \<le> 0"
  with assms show "at_repeat tunr w h =
              next_turn tunr
                (timed_out w h (timer (scripts w h) - interval (scripts w h))
                   (timeout_warning_given (scripts w h)) []) h"
    by (intro at_repeat_timeout)
next
  let ?s = "scripts w h"
  let ?fs = "fighters ?s"
  let ?c = "?fs ! turn ?s"
  let ?ms = "if timeout_warning_given ?s then [] else [Timeout_warning ?c]"
  let ?W = "timed_out w h 0 True ?ms"
  assume a: "timer ?s = TURN_TIMEOUT \<and> interval ?s = 5"
  with assms show six: "ticks 6 tunr w h = next_turn tunr ?W h"
    by (intro six_ticks) simp_all
  assume b: "(\<exists>f \<in> set ?fs. f \<noteq> ?c \<and> combat_lastaction (chars w f) \<noteq> Some ''disengage'') \<and>
              length (filter (\<lambda>f. hp (chars w f) = Some 0) ?fs) + 1 \<noteq> length ?fs"
  have fsW: "fighters (scripts ?W h) = ?fs" and tW: "turn (scripts ?W h) = turn ?s"
    and aW: "is_active (scripts ?W h) = is_active ?s"
    by (simp_all add: timed_out_fields)
  have hpW: "hp (chars ?W f) = hp (chars w f)" for f
    by (simp add: timed_out_fields)
  have laW: "combat_lastaction (chars ?W ?c) = Some ''disengage''"
    by (simp add: timed_out_fields)
  have nd: "\<not> disengage_check ?W (fighters (scripts ?W h))"
    using b by (auto simp: disengage_check_iff timed_out_fields)
  have nl: "defeated_characters ?W (fighters (scripts ?W h)) \<noteq> int (length (fighters (scripts ?W h))) - 1"
    using b by (intro not_last_standing) (simp add: fsW hpW)
  have vt: "turn (scripts ?W h) < length (fighters (scripts ?W h))"
    using assms(1) by (simp add: fsW tW)
  have nt: "next_turn tunr ?W h =
         start_turn (cycled tunr ?W h)
           (fighters (scripts ?W h) ! ((turn (scripts ?W h) + 1) mod length (fighters (scripts ?W h))))"
    using nd nl vt by (rule next_turn_cycle)
  show "combat_lastaction (chars (snd (ticks 6 tunr w h)) ?c) = Some ''disengage''"
    using laW by (simp add: six nt start_turn_fields cycled_fields)
  show "turn (scripts (snd (ticks 6 tunr w h)) h) = (turn ?s + 1) mod length ?fs"
    by (simp add: six nt start_turn_fields cycled_fields fsW tW)
  show "is_active (scripts (snd (ticks 6 tunr w h)) h) = is_active ?s"
    by (simp add: six nt start_turn_fields cycled_fields aW)
qed

text \<open>Six ticks of the new fight of two: five leave the turn with fighter 1, the sixth
  forces the disengage and rotates to fighter 2.\<close>

theorem timeout_forces_disengage_witness:
  "turn (scripts duel_start 5) < length (fighters (scripts duel_start 5)) \<and>
   fighters (scripts duel_start 5) = [1, 2] \<and>
   fighters (scripts duel_start 5) ! turn (scripts duel_start 5) = 1 \<and>
   combat_turnhandler (chars duel_start 1) = Some 5 \<and>
   timer (scripts duel_start 5) = TURN_TIMEOUT \<and>
   interval (scripts duel_start 5) = 5 \<and>
   \<not> timeout_warning_given (scripts duel_start 5) \<and>
   combat_lastaction (chars duel_start 2) \<noteq> Some ''disengage'' \<and>
   length (filter (\<lambda>f. hp (chars duel_start f) = Some 0) (fighters (scripts duel_start 5))) + 1 \<noteq>
     length (fighters (scripts duel_start 5)) \<and>
   ticks 6 0 duel_start 5 = next_turn 0 (timed_out duel_start 5 0 True [Timeout_warning 1]) 5 \<and>
   combat_lastaction (chars (snd (ticks 6 0 duel_start 5)) 1) = Some ''disengage'' \<and>
   turn (scripts (snd (ticks 6 0 duel_start 5)) 5) = 1 \<and>
   is_active (scripts (snd (ticks 6 0 duel_start 5)) 5) \<and>
   fst (ticks 5 0 duel_start 5) = Inr () \<and>
   turn (scripts duel_late 5) = 0 \<and>
   combat_lastaction (chars duel_late 1) = Some ''null'' \<and>
   timer (scripts duel_late 5) - interval (scripts duel_late 5) \<le> 0 \<and>
   at_repeat 0 duel_late 5 = next_turn 0 (timed_out duel_late 5 0 True []) 5 \<and>
   fst (ticks 6 0 duel_start 5) = Inr () \<and>
   combat_actionsleft (chars (snd (ticks 6 0 duel_start 5)) 1) = Some 0 \<and>
   msgs (snd (ticks 6 0 duel_start 5)) =
     msgs duel_start @ [Timeout_warning 1, Timed_out 0 1, Turn_change 0 1 2, Your_turn 2 100]"
proof -
  have h1: "turn (scripts duel_start 5) < length (fighters (scripts duel_start 5))"
    by code_simp
  have fs: "fighters (scripts duel_start 5) = [1, 2]"
    by code_simp
  have c: "fighters (scripts duel_start 5) ! turn (scripts duel_start 5) = 1"
    by code_simp
  have h2: "combat_turnhandler (chars duel_start (fighters (scripts duel_start 5) ! turn (scripts duel_start 5))) = Some 5"
    by code_simp
  have h3: "timer (scripts duel_start 5) = TURN_TIMEOUT \<and> interval (scripts duel_start 5) = 5"
    by code_simp
  have h4: "\<not> timeout_warning_given (scripts duel_start 5)"
    by code_simp
  have h5: "combat_lastaction (chars duel_start 2) \<noteq> Some ''disengage''"
    by code_simp
  have h6: "length (filter (\<lambda>f. hp (chars duel_start f) = Some 0) (fighters (scripts duel_start 5))) + 1 \<noteq>
     length (fighters (scripts duel_start 5))"
    by code_simp
  have ex: "\<exists>f \<in> set (fighters (scripts duel_start 5)).
                 f \<noteq> fighters (scripts duel_start 5) ! turn (scripts duel_start 5) \<and>
                 combat_lastaction (chars duel_start f) \<noteq> Some ''disengage''"
    by code_simp
  note inst = timeout_forces_disengage [OF h1 h2, of 0]
  from inst h3 h4 c
  have eq: "ticks 6 0 duel_start 5 = next_turn 0 (timed_out duel_start 5 0 True [Timeout_warning 1]) 5"
    by simp
  from inst h3 ex h6
  have rot: "combat_lastaction (chars (snd (ticks 6 0 duel_start 5))
               (fighters (scripts duel_start 5) ! turn (scripts duel_start 5))) = Some ''disengage'' \<and>
             turn (scripts (snd (ticks 6 0 duel_start 5)) 5) =
               (turn (scripts duel_start 5) + 1) mod length (fighters (scripts duel_start 5)) \<and>
             is_active (scripts (snd (ticks 6 0 duel_start 5)) 5) = is_active (scripts duel_start 5)"
    by blast
  have more: "turn (scripts duel_start 5) = 0 \<and> is_active (scripts duel_start 5)"
    by code_simp
  from rot more have rot': "combat_lastaction (chars (snd (ticks 6 0 duel_start 5)) 1) = Some ''disengage'' \<and>
   turn (scripts (snd (ticks 6 0 duel_start 5)) 5) = 1 \<and>
   is_active (scripts (snd (ticks 6 0 duel_start 5)) 5)"
    by (simp add: c fs)
  have l1: "turn (scripts duel_late 5) < length (fighters (scripts duel_late 5))"
    by code_simp
  have l2: "combat_turnhandler (chars duel_late (fighters (scripts duel_late 5) ! turn (scripts duel_late 5))) = Some 5"
    by code_simp
  have l3: "timer (scripts duel_late 5) - interval (scripts duel_late 5) \<le> 0"
    by code_simp
  have l4: "timer (scripts duel_late 5) - interval (scripts duel_late 5) = 0 \<and>
            timeout_warning_given (scripts duel_late 5)"
    by code_simp
  from timeout_forces_disengage [OF l1 l2, of 0] l3 l4
  have late: "at_repeat 0 duel_late 5 = next_turn 0 (timed_out duel_late 5 0 True []) 5"
    by simp
  have run: "fst (ticks 5 0 duel_start 5) = Inr () \<and>
   turn (scripts duel_late 5) = 0 \<and>
   combat_lastaction (chars duel_late 1) = Some ''null'' \<and>
   fst (ticks 6 0 duel_start 5) = Inr () \<and>
   combat_actionsleft (chars (snd (ticks 6 0 duel_start 5)) 1) = Some 0 \<and>
   msgs (snd (ticks 6 0 duel_start 5)) =
     msgs duel_start @ [Timeout_warning 1, Timed_out 0 1, Turn_change 0 1 2, Your_turn 2 100]"
    by code_simp
  have h2': "combat_turnhandler (chars duel_start 1) = Some 5"
    using h2 c by simp
  from h1 fs c h2' h3 h4 h5 h6 eq rot' l3 late run show ?thesis by blast
qed

text \<open>C8 as stated fails on a turn begun by a rotation and on a fight that the forced
  disengage ends: after a pass 3 seconds before the next repeat the countdown starts at
  33 and six ticks leave it at 3 with nobody disengaged; in the fight of two in which
  fighter 1 has disengaged, six ticks end the fight and the cursor does not move.\<close>

theorem timeout_six_ticks_counterexample:
  "turn (scripts duel_passed 5) = 1 \<and>
   timer (scripts duel_passed 5) = 33 \<and>
   interval (scripts duel_passed 5) = 5 \<and>
   fst (ticks 6 3 duel_passed 5) = Inr () \<and>
   timer (scripts (snd (ticks 6 3 duel_passed 5)) 5) = 3 \<and>
   turn (scripts (snd (ticks 6 3 duel_passed 5)) 5) = 1 \<and>
   combat_lastaction (chars (snd (ticks 6 3 duel_passed 5)) 2) = Some ''null'' \<and>
   combat_actionsleft (chars (snd (ticks 6 3 duel_passed 5)) 2) = Some 1 \<and>
   turn (scripts duel_mid 5) = 1 \<and>
   timer (scripts duel_mid 5) = 30 \<and>
   fst (ticks 6 0 duel_mid 5) = Inr () \<and>
   \<not> is_active (scripts (snd (ticks 6 0 duel_mid 5)) 5) \<and>
   turn (scripts (snd (ticks 6 0 duel_mid 5)) 5) = 1"
  by code_simp

text \<open>
  C10, as amended. For a character whose \<open>combat_turnhandler\<close> is unset, \<open>is_turn\<close>
  raises by dereferencing the absent handler, and \<open>spend_action\<close> raises in every case:
  by dereferencing the absent handler when the amount is \<open>All\<close> or the character still
  has a \<open>combat_actionsleft\<close> value, and otherwise already at the subtraction from the
  unset \<open>combat_actionsleft\<close>.
\<close>

theorem out_of_combat_raises:
  assumes "\<not> is_in_combat w c"
  shows "is_turn w c = (Inl AttributeError, w) \<and>
         (\<exists>e. fst (spend_action tunr w c amt lbl) = Inl e) \<and>
         (amt = All \<or> combat_actionsleft (chars w c) \<noteq> None \<longrightarrow>
            fst (spend_action tunr w c amt lbl) = Inl AttributeError) \<and>
         (amt \<noteq> All \<and> combat_actionsleft (chars w c) = None \<longrightarrow>
            fst (spend_action tunr w c amt lbl) = Inl TypeError)"
proof -
  from assms have n: "combat_turnhandler (chars w c) = None"
    by (simp add: is_in_combat_def)
  then have "is_turn w c = (Inl AttributeError, w)"
    by (simp add: is_turn_def)
  with spend_action_no_handler [OF n, of tunr amt lbl] show ?thesis
    by blast
qed

text \<open>A character that never fought: both calls raise, and the failed
  \<open>spend_action\<close> has already written the label and the 0.\<close>

theorem out_of_combat_raises_witness:
  "\<not> is_in_combat idle 1 \<and>
   combat_actionsleft (chars idle 1) = None \<and>
   is_turn idle 1 = (Inl AttributeError, idle) \<and>
   fst (spend_action 0 idle 1 All (Some ''pass'')) = Inl AttributeError \<and>
   fst (spend_action 0 idle 1 (Amt 1) (Some ''attack'')) = Inl TypeError \<and>
   combat_lastaction (chars (snd (spend_action 0 idle 1 All (Some ''pass''))) 1) = Some ''pass'' \<and>
   combat_actionsleft (chars (snd (spend_action 0 idle 1 All (Some ''pass''))) 1) = Some 0 \<and>
   \<not> is_in_combat (snd (spend_action 0 idle 1 All (Some ''pass''))) 1 \<and>
   fst (spend_action 0 (snd (spend_action 0 idle 1 All (Some ''pass''))) 1 (Amt 1) None) =
     Inl AttributeError"
proof -
  have h: "\<not> is_in_combat idle 1"
    by code_simp
  have n: "combat_actionsleft (chars idle 1) = None"
    by code_simp
  from out_of_combat_raises [OF h, of 0 All "Some ''pass''"]
  have a: "is_turn idle 1 = (Inl AttributeError, idle) \<and>
           fst (spend_action 0 idle 1 All (Some ''pass'')) = Inl AttributeError"
    by simp
  from out_of_combat_raises [OF h, of 0 "Amt 1" "Some ''attack''"] n
  have b: "fst (spend_action 0 idle 1 (Amt 1) (Some ''attack'')) = Inl TypeError"
    by simp
  have run: "combat_lastaction (chars (snd (spend_action 0 idle 1 All (Some ''pass''))) 1) = Some ''pass'' \<and>
   combat_actionsleft (chars (snd (spend_action 0 idle 1 All (Some ''pass''))) 1) = Some 0 \<and>
   \<not> is_in_combat (snd (spend_action 0 idle 1 All (Some ''pass''))) 1 \<and>
   fst (spend_action 0 (snd (spend_action 0 idle 1 All (Some ''pass''))) 1 (Amt 1) None) =
     Inl AttributeError"
    by code_simp
  from h n a b run show ?thesis by blast
qed

text \<open>C10 as stated fails for a numeric amount: the exception is the \<open>TypeError\<close> of
  the subtraction, raised before the handler is touched.\<close>

theorem out_of_combat_counterexample:
  "\<not> is_in_combat idle 1 \<and>
   combat_actionsleft (chars idle 1) = None \<and>
   fst (spend_action 0 idle 1 (Amt 1) (Some ''attack'')) = Inl TypeError \<and>
   fst (spend_action 0 idle 1 (Amt 1) (Some ''attack'')) \<noteq> Inl AttributeError"
  by code_simp

text \<open>
  C5, as amended. The module has no error for an ended fight and no test of the script's
  state. After the stop the script is not running and every roster member's reference
  to it is cleared, so \<open>is_turn\<close> and \<open>spend_action\<close> for a former fighter raise (on the
  absent handler or the absent actions) and leave roster, cursor, countdown and rooms as
  they are.
\<close>

theorem ended_fight_rejects_participants:
  assumes "c \<in> set (fighters (scripts w h))"
  shows "\<not> is_active (scripts (stop w h) h) \<and>
         \<not> is_in_combat (stop w h) c \<and>
         is_turn (stop w h) c = (Inl AttributeError, stop w h) \<and>
         (\<exists>e. fst (spend_action tunr (stop w h) c amt lbl) = Inl e) \<and>
         scripts (snd (spend_action tunr (stop w h) c amt lbl)) = scripts (stop w h) \<and>
         rooms (snd (spend_action tunr (stop w h) c amt lbl)) = rooms (stop w h)"
proof -
  have n: "combat_turnhandler (chars (stop w h) c) = None"
    using assms by (simp add: stop_fields cleanup_attrs_def)
  have a: "\<not> is_active (scripts (stop w h) h)"
    by (simp add: stop_fields)
  have t: "is_turn (stop w h) c = (Inl AttributeError, stop w h)"
    using n by (simp add: is_turn_def)
  from n have i: "\<not> is_in_combat (stop w h) c"
    by (simp add: is_in_combat_def)
  from a i t spend_action_no_handler [OF n, of tunr amt lbl] show ?thesis
    by blast
qed

text \<open>The fight of two after both disengaged.\<close>

theorem ended_fight_rejects_participants_witness:
  "2 \<in> set (fighters (scripts duel_last_check 5)) \<and>
   \<not> is_active (scripts (stop duel_last_check 5) 5) \<and>
   \<not> is_in_combat (stop duel_last_check 5) 2 \<and>
   is_turn (stop duel_last_check 5) 2 = (Inl AttributeError, stop duel_last_check 5) \<and>
   fst (spend_action 0 duel_over 2 All (Some ''pass'')) = Inl AttributeError \<and>
   fst (spend_action 0 duel_over 2 (Amt 1) (Some ''attack'')) = Inl TypeError \<and>
   fst (is_turn duel_over 1) = Inl AttributeError"
proof -
  have h: "2 \<in> set (fighters (scripts duel_last_check 5))"
    by code_simp
  have run: "fst (spend_action 0 duel_over 2 All (Some ''pass'')) = Inl AttributeError \<and>
   fst (spend_action 0 duel_over 2 (Amt 1) (Some ''attack'')) = Inl TypeError \<and>
   fst (is_turn duel_over 1) = Inl AttributeError"
    by code_simp
  from ended_fight_rejects_participants [OF h, of 0 All None] h run show ?thesis
    by blast
qed

text \<open>C5 as stated fails on the script itself: on the stopped script of the fight of
  two, \<open>join_fight\<close> changes roster and cursor and a tick lowers the countdown, and
  neither raises.\<close>

theorem ended_fight_counterexample:
  "\<not> is_active (scripts duel_over 5) \<and>
   fighters (scripts duel_over 5) = [1, 2] \<and>
   turn (scripts duel_over 5) = 1 \<and>
   timer (scripts duel_over 5) = 30 \<and>
   fighters (scripts (join_fight duel_over 5 3) 5) = [1, 3, 2] \<and>
   turn (scripts (join_fight duel_over 5 3) 5) = 2 \<and>
   combat_turnhandler (chars (join_fight duel_over 5 3) 3) = Some 5 \<and>
   fst (at_repeat 0 duel_over 5) = Inr () \<and>
   timer (scripts (snd (at_repeat 0 duel_over 5)) 5) = 25"
  by code_simp

end
